theory Spec2Isabelle
  imports Complex_Main "HOL-Library.Word" "HOL-Library.Multiset"
begin

section \<open>Cells, data frames and the object heap\<close>

text \<open>
  A cell of a pandas frame as \<^verbatim>\<open>app.py\<close> meets it: a missing value, a missing
  timestamp, a string, an integer, a finite float (every finite float is a rational;
  no float arithmetic is done by this model) or a timestamp in nanoseconds since the
  epoch.
\<close>

datatype cell = CNaN | CNaT | CStr string | CInt int | CFloat rat | CTime int

text \<open>
  A frame is column oriented: the length of its index and its named columns in order.
\<close>

record table =
  nrows :: nat
  cols :: "(string \<times> cell list) list"

datatype storage_step = WriteDataCsv | WritePredictionsCsv | InsertDataset | InsertSummary | Commit

text \<open>
  Every exception of the pipeline is a value. \<open>InvalidDateFormat\<close> is the
  \<^verbatim>\<open>ValueError\<close> of line 119; \<open>LengthMismatch\<close> is what pandas raises when an array
  of the wrong shape is assigned to a column; \<open>UnseenLabels\<close> is a label encoder's
  \<^verbatim>\<open>ValueError\<close> carrying the labels it does not know; \<open>ArtifactError\<close> is any other
  exception of a loaded artifact; \<open>StorageError\<close> is an \<^verbatim>\<open>OSError\<close> or
  \<^verbatim>\<open>sqlite3.Error\<close> of the named write.
\<close>

datatype error =
    KeyError string
  | InvalidDateFormat
  | LengthMismatch
  | UnseenLabels "cell list"
  | ArtifactError string
  | StorageError storage_step

definition column_names :: "table \<Rightarrow> string list" where
  "column_names t = map fst (cols t)"

text \<open>\<^verbatim>\<open>df[c]\<close>: the column, or \<^verbatim>\<open>KeyError\<close>.\<close>

definition getitem :: "table \<Rightarrow> string \<Rightarrow> error + cell list" where
  "getitem t c = (case map_of (cols t) c of None \<Rightarrow> Inl (KeyError c) | Some v \<Rightarrow> Inr v)"

fun upsert :: "string \<Rightarrow> cell list \<Rightarrow> (string \<times> cell list) list \<Rightarrow> (string \<times> cell list) list" where
  "upsert c v [] = [(c, v)]"
| "upsert c v ((k, x) # ps) = (if k = c then (c, v) # ps else (k, x) # upsert c v ps)"

text \<open>\<^verbatim>\<open>df[c] = v\<close>: an existing column is replaced where it stands, a new one is appended.\<close>

definition set_column :: "string \<Rightarrow> cell list \<Rightarrow> table \<Rightarrow> table" where
  "set_column c v t = t\<lparr>cols := upsert c v (cols t)\<rparr>"

text \<open>\<^verbatim>\<open>df.drop(cs, axis=1, errors='ignore')\<close>.\<close>

definition drop_columns :: "string list \<Rightarrow> table \<Rightarrow> table" where
  "drop_columns cs t = t\<lparr>cols := filter (\<lambda>p. fst p \<notin> set cs) (cols t)\<rparr>"

fun getitems :: "table \<Rightarrow> string list \<Rightarrow> error + cell list list" where
  "getitems t [] = Inr []"
| "getitems t (c # cs) =
     (case getitem t c of
        Inl e \<Rightarrow> Inl e
      | Inr v \<Rightarrow> (case getitems t cs of Inl e \<Rightarrow> Inl e | Inr vs \<Rightarrow> Inr (v # vs)))"

fun set_columns :: "string list \<Rightarrow> cell list list \<Rightarrow> table \<Rightarrow> table" where
  "set_columns (c # cs) (v # vs) t = set_columns cs vs (set_column c v t)"
| "set_columns _ _ t = t"

text \<open>
  Frames are mutable objects. The heap is the list of the frames allocated so far and
  a reference is an index into it; allocation appends.
\<close>

type_synonym heap = "table list"

text \<open>
  A statement runs on a state and leaves a state and either an exception or a value;
  a sequence of statements stops at the first exception, keeping the state reached.
\<close>

type_synonym ('s, 'a) run = "'s \<Rightarrow> 's \<times> (error + 'a)"

type_synonym 'a py = "(heap, 'a) run"

definition py_return :: "'a \<Rightarrow> ('s, 'a) run" where
  "py_return x h = (h, Inr x)"

definition py_raise :: "error \<Rightarrow> ('s, 'a) run" where
  "py_raise e h = (h, Inl e)"

definition py_lift :: "error + 'a \<Rightarrow> ('s, 'a) run" where
  "py_lift r h = (h, r)"

definition py_bind :: "('s, 'a) run \<Rightarrow> ('a \<Rightarrow> ('s, 'b) run) \<Rightarrow> ('s, 'b) run" where
  "py_bind m f h = (case m h of (h', Inl e) \<Rightarrow> (h', Inl e) | (h', Inr x) \<Rightarrow> f x h')"

text \<open>\<^verbatim>\<open>df.copy()\<close>: a new object with the same content.\<close>

definition df_copy :: "nat \<Rightarrow> nat py" where
  "df_copy r h = (h @ [h ! r], Inr (length h))"

definition df_getitem :: "nat \<Rightarrow> string \<Rightarrow> (cell list) py" where
  "df_getitem r c h = (h, getitem (h ! r) c)"

text \<open>Assigning a series taken from the same frame: in place, never an error.\<close>

definition df_setitem :: "nat \<Rightarrow> string \<Rightarrow> cell list \<Rightarrow> unit py" where
  "df_setitem r c v h = (h[r := set_column c v (h ! r)], Inr ())"

text \<open>Assigning an array: in place, \<^verbatim>\<open>ValueError\<close> unless it has one value per row.\<close>

definition df_setitem_array :: "nat \<Rightarrow> string \<Rightarrow> cell list \<Rightarrow> unit py" where
  "df_setitem_array r c v h =
     (if length v = nrows (h ! r) then (h[r := set_column c v (h ! r)], Inr ())
      else (h, Inl LengthMismatch))"

definition df_drop :: "nat \<Rightarrow> string list \<Rightarrow> unit py" where
  "df_drop r cs h = (h[r := drop_columns cs (h ! r)], Inr ())"

definition df_getitems :: "nat \<Rightarrow> string list \<Rightarrow> (cell list list) py" where
  "df_getitems r cs h = (h, getitems (h ! r) cs)"

text \<open>Assigning a two-dimensional array to a list of columns: the shape must fit.\<close>

definition df_setitems_array :: "nat \<Rightarrow> string list \<Rightarrow> cell list list \<Rightarrow> unit py" where
  "df_setitems_array r cs m h =
     (if length m = length cs \<and> list_all (\<lambda>v. length v = nrows (h ! r)) m
      then (h[r := set_columns cs m (h ! r)], Inr ())
      else (h, Inl LengthMismatch))"

section \<open>The loaded artifacts and the libraries\<close>

text \<open>
  What \<^verbatim>\<open>load_artifacts\<close> returns and what pandas parses are not in the sources:
  they are parameters. \<open>to_datetime\<close> is \<^verbatim>\<open>pd.to_datetime(_, errors='coerce')\<close> on a
  whole column (\<open>None\<close> is \<^verbatim>\<open>NaT\<close>); the others are the four pickled objects' methods.
\<close>

record env =
  to_datetime :: "cell list \<Rightarrow> int option list"
  diagnosis_encoder_transform :: "cell list \<Rightarrow> error + cell list"
  scaler_transform :: "cell list list \<Rightarrow> error + cell list list"
  model_predict :: "table \<Rightarrow> error + int list"
  fraud_encoder_inverse_transform :: "int list \<Rightarrow> error + string list"

section \<open>Helper functions of app.py\<close>

definition stamp :: "int option \<Rightarrow> cell" where
  "stamp x = (case x of None \<Rightarrow> CNaT | Some t \<Rightarrow> CTime t)"

definition isnull :: "cell \<Rightarrow> bool" where
  "isnull c = (c = CNaN \<or> c = CNaT)"

definition ns_per_day :: int where
  "ns_per_day = 86400000000000"

text \<open>\<^verbatim>\<open>(discharged - admitted).dt.days\<close>: the floor of the difference in days.\<close>

fun days_between :: "cell \<Rightarrow> cell \<Rightarrow> cell" where
  "days_between (CTime d) (CTime a) = CInt ((d - a) div ns_per_day)"
| "days_between _ _ = CNaN"

definition timedelta_days :: "cell list \<Rightarrow> cell list \<Rightarrow> cell list" where
  "timedelta_days ds as = map (\<lambda>(d, a). days_between d a) (zip ds as)"

text \<open>\<^verbatim>\<open>.map({'Male': 1, 'Female': 0})\<close>: a value that is not a key becomes NaN.\<close>

definition gender_code :: "cell \<Rightarrow> cell" where
  "gender_code c = (if c = CStr ''Male'' then CInt 1 else if c = CStr ''Female'' then CInt 0 else CNaN)"

definition num_cols :: "string list" where
  "num_cols = [''Age'', ''Amount Billed'', ''Length of Stay'']"

text \<open>Lines 113 to 122: the copy, the parsed dates, the check and the length of stay.\<close>

definition parse_dates :: "env \<Rightarrow> nat \<Rightarrow> unit py" where
  "parse_dates E df =
     py_bind (df_getitem df ''Date Admitted'') (\<lambda>adm.
     py_bind (df_setitem df ''Date Admitted'' (map stamp (to_datetime E adm))) (\<lambda>_.
     py_bind (df_getitem df ''Date Discharged'') (\<lambda>dis.
     py_bind (df_setitem df ''Date Discharged'' (map stamp (to_datetime E dis))) (\<lambda>_.
     py_bind (df_getitem df ''Date Admitted'') (\<lambda>a.
     py_bind (df_getitem df ''Date Discharged'') (\<lambda>d.
       if list_ex isnull a \<or> list_ex isnull d then py_raise InvalidDateFormat
       else df_setitem df ''Length of Stay'' (timedelta_days d a)))))))"

text \<open>Lines 125 to 135: the dropped columns, the two encodings and the scaling.\<close>

definition encode_and_scale :: "env \<Rightarrow> nat \<Rightarrow> unit py" where
  "encode_and_scale E df =
     py_bind (df_drop df [''Patient ID'', ''Date Admitted'', ''Date Discharged'']) (\<lambda>_.
     py_bind (df_getitem df ''Gender'') (\<lambda>g.
     py_bind (df_setitem df ''Gender'' (map gender_code g)) (\<lambda>_.
     py_bind (df_getitem df ''Diagnosis'') (\<lambda>dg.
     py_bind (py_lift (diagnosis_encoder_transform E dg)) (\<lambda>codes.
     py_bind (df_setitem_array df ''Diagnosis'' codes) (\<lambda>_.
     py_bind (df_getitems df num_cols) (\<lambda>m.
     py_bind (py_lift (scaler_transform E m)) (\<lambda>m'.
       df_setitems_array df num_cols m'))))))))"

definition preprocess_data :: "env \<Rightarrow> nat \<Rightarrow> nat py" where
  "preprocess_data E df0 =
     py_bind (df_copy df0) (\<lambda>df.
     py_bind (parse_dates E df) (\<lambda>_.
     py_bind (encode_and_scale E df) (\<lambda>_.
       py_return df)))"

definition make_predictions :: "env \<Rightarrow> nat \<Rightarrow> (string list) py" where
  "make_predictions E df =
     py_bind (preprocess_data E df) (\<lambda>processed_df.
     py_bind (\<lambda>h. (h, model_predict E (h ! processed_df))) (\<lambda>y_pred.
       py_lift (fraud_encoder_inverse_transform E y_pred)))"

section \<open>The result store\<close>

text \<open>
  A value read from an \<^verbatim>\<open>INTEGER\<close> column of the \<^verbatim>\<open>predictions\<close> table: NULL, an
  integer, or a byte sequence.
\<close>

datatype db_value = DbNull | DbInt int | DbBlob "8 word list"

record dataset_row =
  ds_id :: nat
  hospital_id :: nat
  upload_date :: string
  data_path :: string
  predictions_path :: string

record prediction_row =
  pr_id :: nat
  dataset_id :: nat
  total_cases :: db_value
  fraud_count :: db_value
  non_fraud_count :: db_value

text \<open>The two tables the upload writes, with the last identifier each has given out.\<close>

record db =
  datasets :: "dataset_row list"
  predictions :: "prediction_row list"
  datasets_seq :: nat
  predictions_seq :: nat

text \<open>
  The files under \<^verbatim>\<open>data/\<close> and \<^verbatim>\<open>results/\<close> (a file holds the frame that
  \<^verbatim>\<open>read_csv\<close> gives back), the database as the application's one connection sees it
  (\<open>conn\<close>, pending rows included) and as last committed (\<open>durable\<close>).
\<close>

record store =
  files :: "string \<Rightarrow> table option"
  conn :: db
  durable :: db

type_synonym 'a io = "(store, 'a) run"

text \<open>Which storage steps fail in a run; a failing step raises and writes nothing.\<close>

type_synonym faults = "storage_step \<Rightarrow> bool"

definition to_csv :: "faults \<Rightarrow> storage_step \<Rightarrow> string \<Rightarrow> table \<Rightarrow> unit io" where
  "to_csv F step path t st =
     (if F step then (st, Inl (StorageError step))
      else (st\<lparr>files := (files st)(path \<mapsto> t)\<rparr>, Inr ()))"

definition insert_dataset :: "faults \<Rightarrow> nat \<Rightarrow> string \<Rightarrow> string \<Rightarrow> string \<Rightarrow> nat io" where
  "insert_dataset F hosp date dpath ppath st =
     (if F InsertDataset then (st, Inl (StorageError InsertDataset))
      else
        (let i = Suc (datasets_seq (conn st));
             row = \<lparr>ds_id = i, hospital_id = hosp, upload_date = date,
                    data_path = dpath, predictions_path = ppath\<rparr>
         in (st\<lparr>conn := (conn st)\<lparr>datasets := datasets (conn st) @ [row], datasets_seq := i\<rparr>\<rparr>,
             Inr i)))"

text \<open>
  A number handed to \<^verbatim>\<open>execute\<close> as a parameter: a Python \<^verbatim>\<open>int\<close> (what \<^verbatim>\<open>len\<close>
  returns) or a \<^verbatim>\<open>numpy.int64\<close> (what \<^verbatim>\<open>Series.sum()\<close> returns, and what an
  \<^verbatim>\<open>int\<close> minus a \<^verbatim>\<open>numpy.int64\<close> is). sqlite3 stores the first as an integer. The
  second is no \<^verbatim>\<open>int\<close>; sqlite3 takes its buffer, the eight bytes of the two's complement
  value with the least significant byte first, and stores a byte sequence.
\<close>

datatype sql_param = PyInt int | NumpyInt64 int

fun to_bytes_little :: "nat \<Rightarrow> int \<Rightarrow> 8 word list" where
  "to_bytes_little 0 n = []"
| "to_bytes_little (Suc k) n = word_of_int n # to_bytes_little k (n div 256)"

definition int64_bytes :: "int \<Rightarrow> 8 word list" where
  "int64_bytes n = to_bytes_little 8 n"

fun bind_param :: "sql_param \<Rightarrow> db_value" where
  "bind_param (PyInt n) = DbInt n"
| "bind_param (NumpyInt64 n) = DbBlob (int64_bytes n)"

definition insert_summary ::
  "faults \<Rightarrow> nat \<Rightarrow> sql_param \<Rightarrow> sql_param \<Rightarrow> sql_param \<Rightarrow> unit io" where
  "insert_summary F dsid n_total n_fraud n_non_fraud st =
     (if F InsertSummary then (st, Inl (StorageError InsertSummary))
      else
        (let i = Suc (predictions_seq (conn st));
             row = \<lparr>pr_id = i, dataset_id = dsid, total_cases = bind_param n_total,
                    fraud_count = bind_param n_fraud,
                    non_fraud_count = bind_param n_non_fraud\<rparr>
         in (st\<lparr>conn := (conn st)\<lparr>predictions := predictions (conn st) @ [row],
                                    predictions_seq := i\<rparr>\<rparr>,
             Inr ())))"

definition commit :: "faults \<Rightarrow> unit io" where
  "commit F st =
     (if F Commit then (st, Inl (StorageError Commit)) else (st\<lparr>durable := conn st\<rparr>, Inr ()))"

section \<open>The upload tab of hospital_dashboard\<close>

definition required_columns :: "string list" where
  "required_columns =
     [''Patient ID'', ''Date Admitted'', ''Date Discharged'',
      ''Age'', ''Gender'', ''Diagnosis'', ''Amount Billed'']"

fun join :: "string \<Rightarrow> string list \<Rightarrow> string" where
  "join sep [] = []"
| "join sep [x] = x"
| "join sep (x # y # ys) = x @ sep @ join sep (y # ys)"

definition digit_char :: "nat \<Rightarrow> char" where
  "digit_char d = ''0123456789'' ! d"

fun str_nat :: "nat \<Rightarrow> string" where
  "str_nat n = (if n < 10 then [digit_char n] else str_nat (n div 10) @ [digit_char (n mod 10)])"

declare str_nat.simps [simp del]

text \<open>What the tab shows for one visit.\<close>

datatype outcome =
    MissingColumns string
  | FileAccepted
  | ProcessingError error
  | AnalysisCompleted int int

definition df_len :: "nat \<Rightarrow> nat py" where
  "df_len r h = (h, Inr (nrows (h ! r)))"

definition count_fraud :: "cell list \<Rightarrow> nat" where
  "count_fraud p = length (filter (\<lambda>c. c \<noteq> CStr ''No Fraud'') p)"

text \<open>
  Lines 304 to 310: the predictions, the predicted copy and the two counts. The result is
  the reference of \<^verbatim>\<open>df_predicted\<close>, \<^verbatim>\<open>fraud_count\<close> and \<^verbatim>\<open>total_count\<close>.
\<close>

definition classify :: "env \<Rightarrow> nat \<Rightarrow> (nat \<times> int \<times> int) py" where
  "classify E df_original =
     py_bind (make_predictions E df_original) (\<lambda>preds.
     py_bind (df_copy df_original) (\<lambda>df_predicted.
     py_bind (df_setitem_array df_predicted ''Prediction'' (map CStr preds)) (\<lambda>_.
     py_bind (df_getitem df_predicted ''Prediction'') (\<lambda>p.
     py_bind (df_len df_predicted) (\<lambda>n.
       py_return (df_predicted, int (count_fraud p), int n))))))"

text \<open>
  The summary of a predicted frame as lines 309, 310 and 333 compute it: the total, the
  rows whose label is not \<^verbatim>\<open>No Fraud\<close>, and the difference.
\<close>

definition batch_summary :: "table \<Rightarrow> error + (int \<times> int \<times> int)" where
  "batch_summary df_predicted =
     (case getitem df_predicted ''Prediction'' of
        Inl e \<Rightarrow> Inl e
      | Inr p \<Rightarrow>
          Inr (int (nrows df_predicted), int (count_fraud p),
               int (nrows df_predicted) - int (count_fraud p)))"

definition data_path_of :: "nat \<Rightarrow> string \<Rightarrow> string" where
  "data_path_of user_id timestamp = ''data/'' @ str_nat user_id @ ''_'' @ timestamp @ ''.csv''"

definition pred_path_of :: "nat \<Rightarrow> string \<Rightarrow> string" where
  "pred_path_of user_id timestamp = ''results/'' @ str_nat user_id @ ''_'' @ timestamp @ ''.csv''"

text \<open>
  Lines 313 to 334: the two files, the two rows, the commit. \<^verbatim>\<open>total_count\<close> is an
  \<^verbatim>\<open>int\<close>; \<^verbatim>\<open>fraud_count\<close> and \<^verbatim>\<open>total_count - fraud_count\<close> are \<^verbatim>\<open>numpy.int64\<close>.
\<close>

definition persist ::
  "faults \<Rightarrow> nat \<Rightarrow> string \<Rightarrow> string \<Rightarrow> table \<Rightarrow> table \<Rightarrow> int \<Rightarrow> int \<Rightarrow> unit io" where
  "persist F user_id timestamp now df_original df_predicted n_fraud n_total =
     (let dpath = data_path_of user_id timestamp;
          ppath = pred_path_of user_id timestamp
      in
        py_bind (to_csv F WriteDataCsv dpath df_original) (\<lambda>_.
        py_bind (to_csv F WritePredictionsCsv ppath df_predicted) (\<lambda>_.
        py_bind (insert_dataset F user_id now dpath ppath) (\<lambda>dsid.
        py_bind (insert_summary F dsid (PyInt n_total) (NumpyInt64 n_fraud)
                   (NumpyInt64 (n_total - n_fraud))) (\<lambda>_.
          commit F)))))"

text \<open>
  The tab for an uploaded file that \<^verbatim>\<open>read_csv\<close> has parsed to \<open>tbl\<close>; \<open>run\<close> says
  whether the button was pressed. Either \<^verbatim>\<open>except\<close> reports the error and goes on.
\<close>

definition missing_columns :: "table \<Rightarrow> string list" where
  "missing_columns df_original = filter (\<lambda>c. c \<notin> set (column_names df_original)) required_columns"

definition hospital_dashboard ::
  "env \<Rightarrow> faults \<Rightarrow> nat \<Rightarrow> string \<Rightarrow> string \<Rightarrow> bool \<Rightarrow> table \<Rightarrow> store \<Rightarrow> store \<times> outcome" where
  "hospital_dashboard E F user_id timestamp now run tbl st =
     (let missing = missing_columns tbl in
      if missing \<noteq> [] then (st, MissingColumns (''Missing columns: '' @ join '', '' missing))
      else if \<not> run then (st, FileAccepted)
      else
        (case classify E 0 [tbl] of
           (h, Inl e) \<Rightarrow> (st, ProcessingError e)
         | (h, Inr (df_predicted, n_fraud, n_total)) \<Rightarrow>
             (case persist F user_id timestamp now (h ! 0) (h ! df_predicted) n_fraud n_total st of
                (st', Inl e) \<Rightarrow> (st', ProcessingError e)
              | (st', Inr _) \<Rightarrow> (st', AnalysisCompleted n_total n_fraud))))"

section \<open>Reading summaries back\<close>

fun from_bytes_little :: "8 word list \<Rightarrow> int" where
  "from_bytes_little [] = 0"
| "from_bytes_little (b # bs) = uint b + 256 * from_bytes_little bs"

fun to_int_if_bytes :: "db_value \<Rightarrow> int" where
  "to_int_if_bytes (DbBlob bs) = from_bytes_little bs"
| "to_int_if_bytes DbNull = 0"
| "to_int_if_bytes (DbInt n) = n"

text \<open>Lines 367 to 375: the first summary row of a dataset, each count normalised.\<close>

definition dataset_summary :: "store \<Rightarrow> nat \<Rightarrow> (int \<times> int \<times> int) option" where
  "dataset_summary st dsid =
     (case find (\<lambda>r. dataset_id r = dsid) (predictions (conn st)) of
        None \<Rightarrow> None
      | Some pred_data \<Rightarrow>
          Some (to_int_if_bytes (total_cases pred_data),
                to_int_if_bytes (fraud_count pred_data),
                to_int_if_bytes (non_fraud_count pred_data)))"

section \<open>National analytics of admin_dashboard\<close>

text \<open>Lines 511 to 519: the frames of the prediction files that exist.\<close>

definition load_frames :: "store \<Rightarrow> table list" where
  "load_frames st =
     concat (map (\<lambda>row.
       (case files st (predictions_path row) of
          None \<Rightarrow> []
        | Some df_tmp \<Rightarrow> if predictions_path row = [] then [] else [df_tmp]))
       (datasets (conn st)))"

definition union_columns :: "table list \<Rightarrow> string list" where
  "union_columns frames = rev (remdups (rev (concat (map column_names frames))))"

definition column_or_nan :: "table \<Rightarrow> string \<Rightarrow> cell list" where
  "column_or_nan t c = (case map_of (cols t) c of None \<Rightarrow> replicate (nrows t) CNaN | Some v \<Rightarrow> v)"

text \<open>
  \<^verbatim>\<open>pd.concat(frames, ignore_index=True)\<close>: the rows one frame after the other,
  under the union of the columns, NaN where a frame lacks a column.
\<close>

definition pd_concat :: "table list \<Rightarrow> table" where
  "pd_concat frames =
     \<lparr>nrows = sum_list (map nrows frames),
      cols = map (\<lambda>c. (c, concat (map (\<lambda>t. column_or_nan t c) frames))) (union_columns frames)\<rparr>"

text \<open>
  \<^verbatim>\<open>value_counts()\<close>: each distinct value that is not null with the number of its
  rows, the larger counts first.
\<close>

definition value_counts :: "cell list \<Rightarrow> (cell \<times> nat) list" where
  "value_counts xs =
     (let present = filter (\<lambda>c. \<not> isnull c) xs
      in sort_key (\<lambda>p. - int (snd p))
           (map (\<lambda>v. (v, count_list present v)) (rev (remdups (rev present)))))"

datatype national_view =
    NoDataFiles
  | NoPredictionColumn
  | NoDataAvailable
  | NationalOverview int int int "(cell \<times> nat) list"

text \<open>
  Lines 521 to 562. \<open>NationalOverview\<close> holds the two metrics, the non-fraud slice of
  the pie chart and the breakdown table.
\<close>

definition national_analytics :: "table list \<Rightarrow> national_view" where
  "national_analytics all_frames =
     (if all_frames = [] then NoDataFiles
      else
        (let combined_df = pd_concat all_frames in
         case map_of (cols combined_df) ''Prediction'' of
           None \<Rightarrow> NoPredictionColumn
         | Some p \<Rightarrow>
             (let n_total = int (nrows combined_df);
                  n_fraud = int (count_fraud p)
              in if n_total > 0
                 then NationalOverview n_total n_fraud (n_total - n_fraud) (value_counts p)
                 else NoDataAvailable)))"

definition admin_dashboard :: "store \<Rightarrow> national_view" where
  "admin_dashboard st = national_analytics (load_frames st)"

section \<open>A label encoder, and sample artifacts\<close>

fun index_of :: "'a list \<Rightarrow> 'a \<Rightarrow> nat" where
  "index_of [] y = 0"
| "index_of (x # xs) y = (if x = y then 0 else Suc (index_of xs y))"

text \<open>
  Modelled from the spec: the diagnosis encoder is the pickled object
  \<^verbatim>\<open>models/diagnosis_encoder.pkl\<close>, which the sources only load. The spec has it encode a
  diagnosis through a fixed vocabulary learned at training time and fail, naming the
  unknown category, on a value outside that vocabulary, with no bucket for unknown
  values. This is that encoder over the vocabulary \<open>classes\<close>: the code of a value is its
  position in the vocabulary.
\<close>

definition label_encoder_transform :: "cell list \<Rightarrow> cell list \<Rightarrow> error + cell list" where
  "label_encoder_transform classes ys =
     (let unseen = remdups (filter (\<lambda>y. y \<notin> set classes) ys) in
      if unseen \<noteq> [] then Inl (UnseenLabels unseen)
      else Inr (map (\<lambda>y. CInt (int (index_of classes y))) ys))"

text \<open>
  Modelled from the spec: the classifier is the pickled object
  \<^verbatim>\<open>models/fraud_detection_model.pkl\<close>, which the sources only load. The spec has its
  feature vector hold the length of stay, the encoded gender, the encoded diagnosis and
  the scaled age and billed amount, in the fixed column order of training time, with no
  identifier or date field. These are the feature columns, in the order in which
  \<^verbatim>\<open>preprocess_data\<close> leaves them for a file with the required columns in the order of
  \<^verbatim>\<open>required_columns\<close>; a classifier checks the shape of its input when it gives labels
  only for a frame with as many columns as it has features.
\<close>

definition feature_columns :: "string list" where
  "feature_columns = [''Age'', ''Gender'', ''Diagnosis'', ''Amount Billed'', ''Length of Stay'']"


text \<open>
  Sample artifacts for concrete runs: a date parser that knows four ISO dates, a
  diagnosis vocabulary of two, a standard scaler \<open>(x - mean) / scale\<close> on exact
  rationals, a classifier that refuses a frame whose columns are not its feature columns
  and flags a scaled amount above 3, and two labels.
\<close>

definition sample_dates :: "(cell \<times> int) list" where
  "sample_dates =
     [(CStr ''2024-01-01'', 1704067200000000000),
      (CStr ''2024-01-05'', 1704412800000000000),
      (CStr ''2024-01-10'', 1704844800000000000),
      (CStr ''2024-01-10 12:00'', 1704888000000000000)]"

fun scale_cell :: "rat \<times> rat \<Rightarrow> cell \<Rightarrow> cell option" where
  "scale_cell (mu, sd) (CInt x) = Some (CFloat ((of_int x - mu) / sd))"
| "scale_cell (mu, sd) (CFloat x) = Some (CFloat ((x - mu) / sd))"
| "scale_cell (mu, sd) CNaN = Some CNaN"
| "scale_cell (mu, sd) _ = None"

definition scale_column :: "rat \<times> rat \<Rightarrow> cell list \<Rightarrow> error + cell list" where
  "scale_column ms v =
     (if list_all (\<lambda>c. scale_cell ms c \<noteq> None) v then Inr (map (\<lambda>c. the (scale_cell ms c)) v)
      else Inl (ArtifactError ''could not convert to float''))"

fun standard_scaler :: "(rat \<times> rat) list \<Rightarrow> cell list list \<Rightarrow> error + cell list list" where
  "standard_scaler [] [] = Inr []"
| "standard_scaler (ms # mss) (v # vs) =
     (case scale_column ms v of
        Inl e \<Rightarrow> Inl e
      | Inr w \<Rightarrow> (case standard_scaler mss vs of Inl e \<Rightarrow> Inl e | Inr ws \<Rightarrow> Inr (w # ws)))"
| "standard_scaler _ _ = Inl (ArtifactError ''wrong number of features'')"

definition sample_model :: "table \<Rightarrow> error + int list" where
  "sample_model t =
     (if column_names t \<noteq> feature_columns then Inl (ArtifactError ''feature_names mismatch'')
      else
        (case map_of (cols t) ''Amount Billed'' of
           None \<Rightarrow> Inl (ArtifactError ''feature missing'')
         | Some v \<Rightarrow> Inr (map (\<lambda>c. case c of CFloat x \<Rightarrow> if 3 < x then 1 else 0 | _ \<Rightarrow> 0) v)))"

definition sample_labels :: "int list \<Rightarrow> error + string list" where
  "sample_labels ys = Inr (map (\<lambda>y. if y = 1 then ''Billing Fraud'' else ''No Fraud'') ys)"

definition sample_env :: env where
  "sample_env =
     \<lparr>to_datetime = map (map_of sample_dates),
      diagnosis_encoder_transform = label_encoder_transform [CStr ''Flu'', CStr ''Malaria''],
      scaler_transform = standard_scaler [(40, 10), (500, 100), (3, 2)],
      model_predict = sample_model,
      fraud_encoder_inverse_transform = sample_labels\<rparr>"

definition sample_table :: table where
  "sample_table =
     \<lparr>nrows = 3,
      cols =
        [(''Patient ID'', [CStr ''P1'', CStr ''P2'', CStr ''P3'']),
         (''Date Admitted'', [CStr ''2024-01-01'', CStr ''2024-01-01'', CStr ''2024-01-05'']),
         (''Date Discharged'', [CStr ''2024-01-05'', CStr ''2024-01-10'', CStr ''2024-01-10'']),
         (''Age'', [CInt 30, CInt 45, CInt 60]),
         (''Gender'', [CStr ''Male'', CStr ''Female'', CStr ''Male'']),
         (''Diagnosis'', [CStr ''Flu'', CStr ''Malaria'', CStr ''Flu'']),
         (''Amount Billed'', [CInt 100, CInt 900, CInt 250])]\<rparr>"

definition empty_db :: db where
  "empty_db = \<lparr>datasets = [], predictions = [], datasets_seq = 0, predictions_seq = 0\<rparr>"

definition empty_store :: store where
  "empty_store = \<lparr>files = (\<lambda>_. None), conn = empty_db, durable = empty_db\<rparr>"

definition no_faults :: faults where
  "no_faults = (\<lambda>_. False)"

text \<open>One upload of the sample table by hospital 7 into an empty store, nothing failing.\<close>

definition sample_upload :: "store \<times> outcome" where
  "sample_upload =
     hospital_dashboard sample_env no_faults 7 ''20240110120000'' ''2024-01-10 12:00:00'' True
       sample_table empty_store"

text \<open>The sample table with a further column that is itself named \<^verbatim>\<open>Prediction\<close>.\<close>

definition sample_reupload :: table where
  "sample_reupload =
     sample_table\<lparr>cols := cols sample_table @
       [(''Prediction'', [CStr ''Billing Fraud'', CStr ''No Fraud'', CStr ''No Fraud''])]\<rparr>"

text \<open>
  The storage in which the insert of the summary row fails and every other step works.
\<close>

definition summary_fails :: faults where
  "summary_fails = (\<lambda>s. s = InsertSummary)"

text \<open>
  The sample table with its third patient discharged four days before being admitted.
\<close>

definition sample_negative_stay :: table where
  "sample_negative_stay =
     set_column ''Date Discharged'' [CStr ''2024-01-05'', CStr ''2024-01-10'', CStr ''2024-01-01'']
       sample_table"

text \<open>
  The sample table with a gender that is neither \<^verbatim>\<open>Male\<close> nor \<^verbatim>\<open>Female\<close>.
\<close>

definition sample_other_gender :: table where
  "sample_other_gender =
     set_column ''Gender'' [CStr ''Male'', CStr ''Other'', CStr ''Female''] sample_table"

text \<open>
  The sample table with a diagnosis outside the sample vocabulary.
\<close>

definition sample_unknown_diagnosis :: table where
  "sample_unknown_diagnosis =
     set_column ''Diagnosis'' [CStr ''Flu'', CStr ''Plague'', CStr ''Flu''] sample_table"

text \<open>
  A predictions frame as a completed upload stores it: a \<^verbatim>\<open>Prediction\<close> column with one
  label for each row and none missing.
\<close>

definition prediction_frame :: "table \<Rightarrow> bool" where
  "prediction_frame t =
     (case getitem t ''Prediction'' of
        Inl _ \<Rightarrow> False
      | Inr p \<Rightarrow> length p = nrows t \<and> \<not> list_ex isnull p)"

text \<open>
  Two stored batches, of ten rows with two frauds and of five rows with one.
\<close>

definition sample_batch_a :: table where
  "sample_batch_a =
     \<lparr>nrows = 10,
      cols = [(''Prediction'',
               replicate 8 (CStr ''No Fraud'') @ replicate 2 (CStr ''Billing Fraud''))]\<rparr>"

definition sample_batch_b :: table where
  "sample_batch_b =
     \<lparr>nrows = 5,
      cols = [(''Patient ID'', map CInt [1, 2, 3, 4, 5]),
              (''Prediction'', CStr ''Phantom Billing'' # replicate 4 (CStr ''No Fraud''))]\<rparr>"

text \<open>
  The integer a stored count stands for: itself, or the number its bytes write in base
  256 with the least significant byte first, or 0 for NULL.
\<close>

definition encoded_integer :: "db_value \<Rightarrow> int" where
  "encoded_integer v =
     (case v of
        DbNull \<Rightarrow> 0
      | DbInt n \<Rightarrow> n
      | DbBlob bs \<Rightarrow> (\<Sum>i<length bs. uint (bs ! i) * 256 ^ i))"


section \<open>A predicate for the proofs\<close>

text \<open>
  A statement writes to the last object only: run on a heap of \<open>n\<close> objects and one
  more, it leaves the \<open>n\<close> as they were.
\<close>

definition writes_last :: "nat \<Rightarrow> 'a py \<Rightarrow> bool" where
  "writes_last n m \<longleftrightarrow> (\<forall>h t. length h = n \<longrightarrow> (\<exists>t'. fst (m (h @ [t])) = h @ [t']))"

section \<open>Facts about frames and runs\<close>

lemma map_of_upsert: "map_of (upsert c v ps) = (map_of ps)(c \<mapsto> v)"
  by (induction c v ps rule: upsert.induct) auto


lemma map_of_drop:
  "map_of (filter (\<lambda>p. fst p \<notin> S) ps) c = (if c \<in> S then None else map_of ps c)"
  by (induction ps) auto

lemma getitem_set_column:
  "getitem (set_column c v t) c' = (if c' = c then Inr v else getitem t c')"
  by (simp add: getitem_def set_column_def map_of_upsert)

lemma getitem_drop_columns:
  "getitem (drop_columns cs t) c = (if c \<in> set cs then Inl (KeyError c) else getitem t c)"
  by (simp add: getitem_def drop_columns_def map_of_drop)

lemma nrows_set_column: "nrows (set_column c v t) = nrows t"
  by (simp add: set_column_def)

lemma nrows_drop_columns: "nrows (drop_columns cs t) = nrows t"
  by (simp add: drop_columns_def)

lemma getitem_present: "c \<in> set (column_names t) \<Longrightarrow> \<exists>v. getitem t c = Inr v"
proof -
  assume "c \<in> set (column_names t)"
  then have "map_of (cols t) c \<noteq> None"
    by (simp add: column_names_def map_of_eq_None_iff)
  then show ?thesis by (auto simp: getitem_def)
qed

subsection \<open>Every statement of the pipeline writes to the copy only\<close>

lemma writes_last_bind:
  assumes "writes_last n m" and "\<And>x. writes_last n (f x)"
  shows "writes_last n (py_bind m f)"
  unfolding writes_last_def
proof (intro allI impI)
  fix h :: heap and t
  assume len: "length h = n"
  obtain h1 r where run: "m (h @ [t]) = (h1, r)" by (cases "m (h @ [t])")
  from assms(1) len have "\<exists>t'. fst (m (h @ [t])) = h @ [t']"
    unfolding writes_last_def by blast
  with run obtain t1 where h1: "h1 = h @ [t1]" by auto
  show "\<exists>t'. fst (py_bind m f (h @ [t])) = h @ [t']"
  proof (cases r)
    case (Inl e)
    with run h1 show ?thesis by (simp add: py_bind_def)
  next
    case (Inr x)
    from assms(2) [of x] len obtain t2 where "fst (f x (h @ [t1])) = h @ [t2]"
      by (auto simp: writes_last_def)
    with run h1 Inr show ?thesis by (simp add: py_bind_def)
  qed
qed

lemma writes_last_if:
  "writes_last n a \<Longrightarrow> writes_last n b \<Longrightarrow> writes_last n (if c then a else b)"
  by simp

lemma writes_last_prims:
  "writes_last n (py_return x)"
  "writes_last n (py_raise e)"
  "writes_last n (py_lift r)"
  "writes_last n (df_getitem k c)"
  "writes_last n (df_getitems k cs)"
  "writes_last n (df_len k)"
  "writes_last n (df_setitem n c v)"
  "writes_last n (df_setitem_array n c v)"
  "writes_last n (df_setitems_array n cs vs)"
  "writes_last n (df_drop n cs)"
  by (auto simp: writes_last_def py_return_def py_raise_def py_lift_def df_getitem_def
      df_getitems_def df_len_def df_setitem_def df_setitem_array_def df_setitems_array_def
      df_drop_def)

lemma writes_last_parse_dates: "writes_last n (parse_dates E n)"
  unfolding parse_dates_def
  by (intro writes_last_bind writes_last_if writes_last_prims)

lemma writes_last_encode_and_scale: "writes_last n (encode_and_scale E n)"
  unfolding encode_and_scale_def
  by (intro writes_last_bind writes_last_if writes_last_prims)

lemma py_bind_df_copy: "py_bind (df_copy r) f h = f (length h) (h @ [h ! r])"
  by (simp add: py_bind_def df_copy_def)

lemma preprocess_data_heap: "\<exists>t'. fst (preprocess_data E r h) = h @ [t']"
proof -
  have "writes_last (length h)
          (py_bind (parse_dates E (length h)) (\<lambda>_.
           py_bind (encode_and_scale E (length h)) (\<lambda>_. py_return (length h))))"
    by (intro writes_last_bind writes_last_prims writes_last_parse_dates
        writes_last_encode_and_scale)
  then obtain t' where
    "fst ((py_bind (parse_dates E (length h)) (\<lambda>_.
           py_bind (encode_and_scale E (length h)) (\<lambda>_. py_return (length h)))) (h @ [h ! r]))
     = h @ [t']"
    by (auto simp: writes_last_def)
  then have "fst (preprocess_data E r h) = h @ [t']"
    by (simp only: preprocess_data_def py_bind_df_copy)
  then show ?thesis by blast
qed

lemma make_predictions_heap: "fst (make_predictions E r h) = fst (preprocess_data E r h)"
  by (simp add: make_predictions_def py_bind_def py_lift_def split: prod.splits sum.splits)

lemma make_predictions_run:
  "\<exists>t' res. make_predictions E r h = (h @ [t'], res)"
proof -
  obtain t' where "fst (make_predictions E r h) = h @ [t']"
    using preprocess_data_heap [of E r h] by (auto simp: make_predictions_heap)
  then have "make_predictions E r h = (h @ [t'], snd (make_predictions E r h))"
    by (metis prod.collapse)
  then show ?thesis by blast
qed

lemma classify_ok:
  assumes run: "classify E r h = (h', Inr (dp, nf, nt))" and r: "r < length h"
  shows "\<exists>t' preds. make_predictions E r h = (h @ [t'], Inr preds)
           \<and> length preds = nrows (h ! r)
           \<and> h' = h @ [t', set_column ''Prediction'' (map CStr preds) (h ! r)]
           \<and> dp = Suc (length h)
           \<and> nf = int (count_fraud (map CStr preds))
           \<and> nt = int (nrows (h ! r))"
proof -
  obtain t' res where mp: "make_predictions E r h = (h @ [t'], res)"
    using make_predictions_run by blast
  show ?thesis
  proof (cases res)
    case (Inl e)
    with mp run show ?thesis by (simp add: classify_def py_bind_def)
  next
    case (Inr preds)
    have at_r: "(h @ [t']) ! r = h ! r" using r by (simp add: nth_append)
    have upd: "(h @ [t', x])[Suc (length h) := y] = h @ [t', y]" for x y
      by (simp add: list_update_append)
    have nth_new: "(h @ [t', x]) ! Suc (length h) = x" for x
      by (simp add: nth_append)
    from run mp Inr at_r have
      "length preds = nrows (h ! r)
       \<and> h' = h @ [t', set_column ''Prediction'' (map CStr preds) (h ! r)]
       \<and> dp = Suc (length h)
       \<and> nf = int (count_fraud (map CStr preds))
       \<and> nt = int (nrows (h ! r))"
      by (simp add: classify_def py_bind_def df_copy_def df_setitem_array_def df_getitem_def
          df_len_def py_return_def upd nth_new getitem_set_column nrows_set_column
          split: if_splits)
    with mp Inr show ?thesis by blast
  qed
qed

lemma paths_differ: "data_path_of u ts \<noteq> pred_path_of u' ts'"
  by (simp add: data_path_of_def pred_path_of_def)

lemma persist_run:
  "persist F user_id timestamp now a b nf nt st =
     (let dpath = data_path_of user_id timestamp;
          ppath = pred_path_of user_id timestamp;
          dsid = Suc (datasets_seq (conn st));
          drow = \<lparr>ds_id = dsid, hospital_id = user_id, upload_date = now,
                  data_path = dpath, predictions_path = ppath\<rparr>;
          prow = \<lparr>pr_id = Suc (predictions_seq (conn st)), dataset_id = dsid,
                  total_cases = DbInt nt, fraud_count = DbBlob (int64_bytes nf),
                  non_fraud_count = DbBlob (int64_bytes (nt - nf))\<rparr>;
          st1 = st\<lparr>files := (files st)(dpath \<mapsto> a)\<rparr>;
          st2 = st\<lparr>files := (files st)(dpath \<mapsto> a, ppath \<mapsto> b)\<rparr>;
          st3 = st2\<lparr>conn := (conn st)\<lparr>datasets := datasets (conn st) @ [drow],
                                       datasets_seq := dsid\<rparr>\<rparr>;
          st4 = st2\<lparr>conn := (conn st)\<lparr>datasets := datasets (conn st) @ [drow],
                                       datasets_seq := dsid,
                                       predictions := predictions (conn st) @ [prow],
                                       predictions_seq := Suc (predictions_seq (conn st))\<rparr>\<rparr>
      in if F WriteDataCsv then (st, Inl (StorageError WriteDataCsv))
         else if F WritePredictionsCsv then (st1, Inl (StorageError WritePredictionsCsv))
         else if F InsertDataset then (st2, Inl (StorageError InsertDataset))
         else if F InsertSummary then (st3, Inl (StorageError InsertSummary))
         else if F Commit then (st4, Inl (StorageError Commit))
         else (st4\<lparr>durable := conn st4\<rparr>, Inr ()))"
  by (simp add: persist_def Let_def py_bind_def to_csv_def insert_dataset_def
      insert_summary_def commit_def)

lemma hospital_dashboard_completed:
  assumes "hospital_dashboard E F user_id timestamp now run tbl st = (st', AnalysisCompleted nt nf)"
  shows "\<exists>t' preds.
           make_predictions E 0 [tbl] = ([tbl, t'], Inr preds)
         \<and> length preds = nrows tbl
         \<and> nt = int (nrows tbl)
         \<and> nf = int (count_fraud (map CStr preds))
         \<and> files st' = (files st)(data_path_of user_id timestamp \<mapsto> tbl,
               pred_path_of user_id timestamp \<mapsto> set_column ''Prediction'' (map CStr preds) tbl)
         \<and> datasets (conn st') = datasets (conn st) @
               [\<lparr>ds_id = Suc (datasets_seq (conn st)), hospital_id = user_id, upload_date = now,
                 data_path = data_path_of user_id timestamp,
                 predictions_path = pred_path_of user_id timestamp\<rparr>]
         \<and> predictions (conn st') = predictions (conn st) @
               [\<lparr>pr_id = Suc (predictions_seq (conn st)),
                 dataset_id = Suc (datasets_seq (conn st)),
                 total_cases = DbInt nt, fraud_count = DbBlob (int64_bytes nf),
                 non_fraud_count = DbBlob (int64_bytes (nt - nf))\<rparr>]
         \<and> durable st' = conn st'"
proof -
  obtain h res where cl: "classify E 0 [tbl] = (h, res)" by (cases "classify E 0 [tbl]")
  from assms cl obtain dp where res: "res = Inr (dp, nf, nt)"
    and pers: "persist F user_id timestamp now (h ! 0) (h ! dp) nf nt st = (st', Inr ())"
    by (auto simp: hospital_dashboard_def Let_def split: if_splits sum.splits prod.splits)
  from classify_ok [of E 0 "[tbl]" h dp nf nt] cl res
  obtain t' preds where mp: "make_predictions E 0 [tbl] = ([tbl, t'], Inr preds)"
    and len: "length preds = nrows tbl"
    and h: "h = [tbl, t', set_column ''Prediction'' (map CStr preds) tbl]"
    and dp: "dp = 2" and nf: "nf = int (count_fraud (map CStr preds))"
    and nt: "nt = int (nrows tbl)"
    by auto
  from pers have
    "files st' = (files st)(data_path_of user_id timestamp \<mapsto> h ! 0,
               pred_path_of user_id timestamp \<mapsto> h ! dp)
     \<and> datasets (conn st') = datasets (conn st) @
               [\<lparr>ds_id = Suc (datasets_seq (conn st)), hospital_id = user_id, upload_date = now,
                 data_path = data_path_of user_id timestamp,
                 predictions_path = pred_path_of user_id timestamp\<rparr>]
     \<and> predictions (conn st') = predictions (conn st) @
               [\<lparr>pr_id = Suc (predictions_seq (conn st)),
                 dataset_id = Suc (datasets_seq (conn st)),
                 total_cases = DbInt nt, fraud_count = DbBlob (int64_bytes nf),
                 non_fraud_count = DbBlob (int64_bytes (nt - nf))\<rparr>]
     \<and> durable st' = conn st'"
    by (auto simp: persist_run Let_def split: if_splits)
  with mp len h dp nf nt show ?thesis by simp
qed

lemma from_bytes_little_sum:
  "from_bytes_little bs = (\<Sum>i<length bs. uint (bs ! i) * 256 ^ i)"
proof (induction bs)
  case Nil
  then show ?case by simp
next
  case (Cons b bs)
  have "(\<Sum>i<Suc (length bs). uint ((b # bs) ! i) * 256 ^ i)
        = uint b + (\<Sum>i<length bs. uint (bs ! i) * 256 ^ Suc i)"
    by (subst sum.lessThan_Suc_shift) simp
  also have "\<dots> = uint b + 256 * (\<Sum>i<length bs. uint (bs ! i) * 256 ^ i)"
    by (simp add: sum_distrib_left mult.assoc mult.left_commute)
  finally show ?case using Cons.IH by simp
qed

lemma join_names:
  "c \<in> set xs \<Longrightarrow> \<exists>pre post. join sep xs = pre @ c @ post"
proof (induction sep xs rule: join.induct)
  case (1 sep)
  then show ?case by simp
next
  case (2 sep x)
  then have "join sep [x] = [] @ c @ []" by simp
  then show ?case by blast
next
  case (3 sep x y ys)
  show ?case
  proof (cases "c = x")
    case True
    then have "join sep (x # y # ys) = [] @ c @ (sep @ join sep (y # ys))" by simp
    then show ?thesis by blast
  next
    case False
    with 3 obtain pre post where "join sep (y # ys) = pre @ c @ post" by auto
    then have "join sep (x # y # ys) = (x @ sep @ pre) @ c @ post" by simp
    then show ?thesis by blast
  qed
qed

lemma classify_run:
  assumes mp: "make_predictions E r h = (h @ [t'], Inr preds)" and r: "r < length h"
  shows "classify E r h =
           (if length preds = nrows (h ! r)
            then (h @ [t', set_column ''Prediction'' (map CStr preds) (h ! r)],
                  Inr (Suc (length h), int (count_fraud (map CStr preds)), int (nrows (h ! r))))
            else (h @ [t', h ! r], Inl LengthMismatch))"
proof -
  have at_r: "(h @ [t']) ! r = h ! r" using r by (simp add: nth_append)
  have upd: "(h @ [t', x])[Suc (length h) := y] = h @ [t', y]" for x y
    by (simp add: list_update_append)
  have nth_new: "(h @ [t', x]) ! Suc (length h) = x" for x
    by (simp add: nth_append)
  show ?thesis
    using mp at_r
    by (simp add: classify_def py_bind_def df_copy_def df_setitem_array_def df_getitem_def
        df_len_def py_return_def upd nth_new getitem_set_column nrows_set_column)
qed

lemma classify_raise:
  "make_predictions E r h = (h', Inl e) \<Longrightarrow> classify E r h = (h', Inl e)"
  by (simp add: classify_def py_bind_def)

lemma hospital_dashboard_classified:
  assumes v: "missing_columns tbl = []"
    and mp: "make_predictions E 0 [tbl] = (h, Inr preds)"
    and len: "length preds = nrows tbl"
  shows "hospital_dashboard E F user_id timestamp now True tbl st =
           (case persist F user_id timestamp now tbl
                   (set_column ''Prediction'' (map CStr preds) tbl)
                   (int (count_fraud (map CStr preds))) (int (nrows tbl)) st of
              (st', Inl e) \<Rightarrow> (st', ProcessingError e)
            | (st', Inr _) \<Rightarrow>
                (st', AnalysisCompleted (int (nrows tbl)) (int (count_fraud (map CStr preds)))))"
proof -
  from make_predictions_run [of E 0 "[tbl]"] mp obtain t' where h: "h = [tbl, t']" by auto
  from classify_run [of E 0 "[tbl]" t' preds] mp h len
  have "classify E 0 [tbl] =
          ([tbl, t', set_column ''Prediction'' (map CStr preds) tbl],
           Inr (Suc (Suc 0), int (count_fraud (map CStr preds)), int (nrows tbl)))"
    by simp
  then show ?thesis using v by (simp add: hospital_dashboard_def)
qed

lemma list_ex_isnull_stamp: "list_ex isnull (map stamp xs) \<longleftrightarrow> None \<in> set xs"
  by (induction xs) (auto simp: isnull_def stamp_def split: option.splits)

lemma parse_dates_run:
  assumes "getitem t ''Date Admitted'' = Inr a" and "getitem t ''Date Discharged'' = Inr d"
  shows "parse_dates E (length h) (h @ [t]) =
           (let A = map stamp (to_datetime E a);
                D = map stamp (to_datetime E d);
                t2 = set_column ''Date Discharged'' D (set_column ''Date Admitted'' A t)
            in if None \<in> set (to_datetime E a) \<or> None \<in> set (to_datetime E d)
               then (h @ [t2], Inl InvalidDateFormat)
               else (h @ [set_column ''Length of Stay'' (timedelta_days D A) t2], Inr ()))"
  using assms
  by (simp add: parse_dates_def py_bind_def df_getitem_def df_setitem_def py_raise_def
      getitem_set_column list_ex_isnull_stamp Let_def)

lemma getitem_set_columns:
  "c \<notin> set cs \<Longrightarrow> getitem (set_columns cs vs t) c = getitem t c"
  by (induction cs vs t rule: set_columns.induct) (auto simp: getitem_set_column)

lemma nrows_set_columns: "nrows (set_columns cs vs t) = nrows t"
  by (induction cs vs t rule: set_columns.induct) (auto simp: nrows_set_column)

lemma encode_and_scale_run:
  "encode_and_scale E (length h) (h @ [t]) =
     (let t1 = drop_columns [''Patient ID'', ''Date Admitted'', ''Date Discharged''] t in
      case getitem t1 ''Gender'' of
        Inl e \<Rightarrow> (h @ [t1], Inl e)
      | Inr g \<Rightarrow>
          (let t2 = set_column ''Gender'' (map gender_code g) t1 in
           case getitem t2 ''Diagnosis'' of
             Inl e \<Rightarrow> (h @ [t2], Inl e)
           | Inr dg \<Rightarrow>
               (case diagnosis_encoder_transform E dg of
                  Inl e \<Rightarrow> (h @ [t2], Inl e)
                | Inr codes \<Rightarrow>
                    if length codes \<noteq> nrows t2 then (h @ [t2], Inl LengthMismatch)
                    else
                      (let t3 = set_column ''Diagnosis'' codes t2 in
                       case getitems t3 num_cols of
                         Inl e \<Rightarrow> (h @ [t3], Inl e)
                       | Inr m \<Rightarrow>
                           (case scaler_transform E m of
                              Inl e \<Rightarrow> (h @ [t3], Inl e)
                            | Inr m' \<Rightarrow>
                                if length m' = length num_cols
                                   \<and> list_all (\<lambda>v. length v = nrows t3) m'
                                then (h @ [set_columns num_cols m' t3], Inr ())
                                else (h @ [t3], Inl LengthMismatch))))))"
  by (simp add: encode_and_scale_def py_bind_def py_lift_def df_drop_def df_getitem_def
      df_setitem_def df_setitem_array_def df_getitems_def df_setitems_array_def Let_def
      split: sum.splits)

lemma preprocess_data_run:
  assumes "getitem (h ! r) ''Date Admitted'' = Inr a"
    and "getitem (h ! r) ''Date Discharged'' = Inr d"
  shows "preprocess_data E r h =
           (let A = map stamp (to_datetime E a);
                D = map stamp (to_datetime E d);
                t2 = set_column ''Date Discharged'' D (set_column ''Date Admitted'' A (h ! r))
            in if None \<in> set (to_datetime E a) \<or> None \<in> set (to_datetime E d)
               then (h @ [t2], Inl InvalidDateFormat)
               else py_bind (encode_and_scale E (length h)) (\<lambda>_. py_return (length h))
                      (h @ [set_column ''Length of Stay'' (timedelta_days D A) t2]))"
  by (simp add: preprocess_data_def py_bind_df_copy Let_def)
     (simp add: py_bind_def parse_dates_run [OF assms] Let_def)

lemma required_present:
  "missing_columns tbl = [] \<Longrightarrow> c \<in> set required_columns \<Longrightarrow> \<exists>v. getitem tbl c = Inr v"
  by (rule getitem_present) (auto simp: missing_columns_def filter_empty_conv)

lemma make_predictions_raise:
  "preprocess_data E r h = (h', Inl e) \<Longrightarrow> make_predictions E r h = (h', Inl e)"
  by (simp add: make_predictions_def py_bind_def)

lemma preprocess_data_dates:
  assumes "preprocess_data E r h = (h', Inr df)"
  shows "\<exists>a d. getitem (h ! r) ''Date Admitted'' = Inr a
              \<and> getitem (h ! r) ''Date Discharged'' = Inr d"
proof (cases "getitem (h ! r) ''Date Admitted''")
  case (Inl e)
  with assms show ?thesis
    by (simp add: preprocess_data_def py_bind_df_copy)
       (simp add: parse_dates_def py_bind_def df_getitem_def)
next
  case a: (Inr a)
  show ?thesis
  proof (cases "getitem (h ! r) ''Date Discharged''")
    case (Inl e)
    with assms a show ?thesis
      by (simp add: preprocess_data_def py_bind_df_copy)
         (simp add: parse_dates_def py_bind_def df_getitem_def df_setitem_def getitem_set_column)
  next
    case (Inr d)
    with a show ?thesis by simp
  qed
qed

lemma preprocess_data_ok:
  assumes ok: "preprocess_data E r h = (h', Inr df)"
  shows "df = length h
         \<and> (\<exists>g t1 codes m'. getitem (h ! r) ''Gender'' = Inr g
              \<and> h' = h @ [set_columns num_cols m'
                             (set_column ''Diagnosis'' codes
                                (set_column ''Gender'' (map gender_code g) t1))])"
proof -
  from preprocess_data_dates [OF ok] obtain a d where
    a: "getitem (h ! r) ''Date Admitted'' = Inr a"
    and d: "getitem (h ! r) ''Date Discharged'' = Inr d" by blast
  define t3 where "t3 = set_column ''Length of Stay''
      (timedelta_days (map stamp (to_datetime E d)) (map stamp (to_datetime E a)))
      (set_column ''Date Discharged'' (map stamp (to_datetime E d))
         (set_column ''Date Admitted'' (map stamp (to_datetime E a)) (h ! r)))"
  from preprocess_data_run [OF a d, of E] ok
  have pp: "py_bind (encode_and_scale E (length h)) (\<lambda>_. py_return (length h)) (h @ [t3])
            = (h', Inr df)"
    by (simp add: Let_def t3_def split: if_splits)
  have gg: "getitem (drop_columns [''Patient ID'', ''Date Admitted'', ''Date Discharged''] t3)
              ''Gender'' = getitem (h ! r) ''Gender''"
    by (simp add: t3_def getitem_drop_columns getitem_set_column)
  obtain h1 r1 where es: "encode_and_scale E (length h) (h @ [t3]) = (h1, r1)"
    by (cases "encode_and_scale E (length h) (h @ [t3])")
  with pp have r1: "r1 = Inr ()" and h1: "h1 = h'" and df: "df = length h"
    by (auto simp: py_bind_def py_return_def split: sum.splits)
  from es r1 h1 gg have
    "\<exists>g t1 codes m'. getitem (h ! r) ''Gender'' = Inr g
              \<and> h' = h @ [set_columns num_cols m'
                             (set_column ''Diagnosis'' codes
                                (set_column ''Gender'' (map gender_code g) t1))]"
    by (auto simp: encode_and_scale_run Let_def split: sum.splits if_splits)
  with df show ?thesis by simp
qed

lemma getitems_agree:
  "(\<And>c. c \<in> set cs \<Longrightarrow> getitem t c = getitem u c) \<Longrightarrow> getitems t cs = getitems u cs"
  by (induction cs) (auto split: sum.splits)

lemma getitems_set_column:
  "c \<notin> set cs \<Longrightarrow> getitems (set_column c v t) cs = getitems t cs"
  by (rule getitems_agree) (auto simp: getitem_set_column)

lemma getitems_num_cols:
  "getitems (set_column ''Gender'' v t) num_cols = getitems t num_cols"
  "getitems (set_column ''Diagnosis'' v t) num_cols = getitems t num_cols"
  by (rule getitems_set_column, simp add: num_cols_def)+

lemma encode_and_scale_result:
  "snd (encode_and_scale E (length h) (h @ [t])) =
     (let t1 = drop_columns [''Patient ID'', ''Date Admitted'', ''Date Discharged''] t in
      case getitem t1 ''Gender'' of
        Inl e \<Rightarrow> Inl e
      | Inr g \<Rightarrow>
          (case getitem t1 ''Diagnosis'' of
             Inl e \<Rightarrow> Inl e
           | Inr dg \<Rightarrow>
               (case diagnosis_encoder_transform E dg of
                  Inl e \<Rightarrow> Inl e
                | Inr codes \<Rightarrow>
                    if length codes \<noteq> nrows t1 then Inl LengthMismatch
                    else
                      (case getitems t1 num_cols of
                         Inl e \<Rightarrow> Inl e
                       | Inr m \<Rightarrow>
                           (case scaler_transform E m of
                              Inl e \<Rightarrow> Inl e
                            | Inr m' \<Rightarrow>
                                if length m' = length num_cols
                                   \<and> list_all (\<lambda>v. length v = nrows t1) m'
                                then Inr ()
                                else Inl LengthMismatch)))))"
  by (simp add: encode_and_scale_run Let_def getitem_set_column nrows_set_column
      getitems_num_cols sum.case_distrib [of snd] if_distrib [of snd]
      cong: sum.case_cong if_cong)

lemma preprocess_data_result:
  "snd (preprocess_data E r h) =
     (case getitem (h ! r) ''Date Admitted'' of
        Inl e \<Rightarrow> Inl e
      | Inr a \<Rightarrow>
          (case getitem (h ! r) ''Date Discharged'' of
             Inl e \<Rightarrow> Inl e
           | Inr d \<Rightarrow>
               if None \<in> set (to_datetime E a) \<or> None \<in> set (to_datetime E d)
               then Inl InvalidDateFormat
               else
                 (case snd (encode_and_scale E (length h)
                              (h @ [set_column ''Length of Stay''
                                      (timedelta_days (map stamp (to_datetime E d))
                                         (map stamp (to_datetime E a)))
                                      (set_column ''Date Discharged'' (map stamp (to_datetime E d))
                                         (set_column ''Date Admitted''
                                            (map stamp (to_datetime E a)) (h ! r)))])) of
                    Inl e \<Rightarrow> Inl e
                  | Inr _ \<Rightarrow> Inr (length h))))"
proof (cases "getitem (h ! r) ''Date Admitted''")
  case (Inl e)
  then show ?thesis
    by (simp add: preprocess_data_def py_bind_df_copy)
       (simp add: parse_dates_def py_bind_def df_getitem_def)
next
  case a: (Inr a)
  show ?thesis
  proof (cases "getitem (h ! r) ''Date Discharged''")
    case (Inl e)
    with a show ?thesis
      by (simp add: preprocess_data_def py_bind_df_copy)
         (simp add: parse_dates_def py_bind_def df_getitem_def df_setitem_def getitem_set_column)
  next
    case d: (Inr d)
    show ?thesis
      by (simp add: preprocess_data_run [OF a d] a d Let_def py_bind_def py_return_def
          split: prod.splits sum.splits)
  qed
qed

lemma gender_values_do_not_decide:
  assumes "getitem t ''Gender'' = Inr g" and "h' ! r' = set_column ''Gender'' g' t"
    and "h ! r = t" and "length h' = length h"
  shows "snd (preprocess_data E r' h') = snd (preprocess_data E r h)"
proof -
  have g: "getitems (drop_columns cs (set_column l v (set_column dd w (set_column da x
                (set_column ''Gender'' g' t))))) num_cols
           = getitems (drop_columns cs (set_column l v (set_column dd w (set_column da x t))))
               num_cols" for cs l v dd w da x
    by (rule getitems_agree) (auto simp: num_cols_def getitem_drop_columns getitem_set_column)
  show ?thesis
    using assms
    by (simp add: preprocess_data_result encode_and_scale_result [of E h]
        encode_and_scale_result [of E h', simplified assms(4)] g
        getitem_set_column getitem_drop_columns nrows_set_column nrows_drop_columns Let_def
        cong: sum.case_cong if_cong)
qed

lemma sum_list_mset_cong:
  fixes f :: "'a \<Rightarrow> 'b::comm_monoid_add"
  assumes "mset xs = mset ys"
  shows "sum_list (map f xs) = sum_list (map f ys)"
proof -
  have "sum_list (map f xs) = sum_mset (image_mset f (mset xs))"
    by (simp flip: sum_mset_sum_list)
  also have "\<dots> = sum_mset (image_mset f (mset ys))" by (simp add: assms)
  also have "\<dots> = sum_list (map f ys)" by (simp flip: sum_mset_sum_list)
  finally show ?thesis .
qed

lemma map_of_tabulate:
  "map_of (map (\<lambda>c. (c, f c)) cs) k = (if k \<in> set cs then Some (f k) else None)"
  by (induction cs) auto

lemma set_union_columns: "set (union_columns frames) = (\<Union>t\<in>set frames. set (column_names t))"
  by (simp add: union_columns_def)

lemma prediction_frame_column:
  assumes "prediction_frame t"
  shows "getitem t ''Prediction'' = Inr (column_or_nan t ''Prediction'')"
    and "length (column_or_nan t ''Prediction'') = nrows t"
    and "\<not> list_ex isnull (column_or_nan t ''Prediction'')"
    and "''Prediction'' \<in> set (column_names t)"
proof -
  from assms obtain p where p: "getitem t ''Prediction'' = Inr p"
    and l: "length p = nrows t" and n: "\<not> list_ex isnull p"
    by (auto simp: prediction_frame_def split: sum.splits)
  from p have m: "map_of (cols t) ''Prediction'' = Some p"
    by (auto simp: getitem_def split: option.splits)
  then have c: "column_or_nan t ''Prediction'' = p" by (simp add: column_or_nan_def)
  from p c show "getitem t ''Prediction'' = Inr (column_or_nan t ''Prediction'')" by simp
  from l c show "length (column_or_nan t ''Prediction'') = nrows t" by simp
  from n c show "\<not> list_ex isnull (column_or_nan t ''Prediction'')" by simp
  from m have "''Prediction'' \<in> fst ` set (cols t)" by (metis map_of_eq_None_iff option.distinct(1))
  then show "''Prediction'' \<in> set (column_names t)" by (simp add: column_names_def)
qed

lemma count_fraud_concat:
  "count_fraud (concat xss) = sum_list (map count_fraud xss)"
  by (induction xss) (simp_all add: count_fraud_def)

lemma national_analytics_run:
  assumes pf: "list_all prediction_frame frames"
    and pos: "0 < sum_list (map nrows frames)"
  shows "national_analytics frames =
           NationalOverview
             (int (sum_list (map nrows frames)))
             (int (sum_list (map (\<lambda>t. count_fraud (column_or_nan t ''Prediction'')) frames)))
             (int (sum_list (map nrows frames))
                - int (sum_list (map (\<lambda>t. count_fraud (column_or_nan t ''Prediction'')) frames)))
             (value_counts (concat (map (\<lambda>t. column_or_nan t ''Prediction'') frames)))"
proof -
  from pos have ne: "frames \<noteq> []" by auto
  then obtain t where t: "t \<in> set frames" by (cases frames) auto
  with pf have "prediction_frame t" by (simp add: list_all_iff)
  then have "''Prediction'' \<in> set (column_names t)" by (rule prediction_frame_column)
  with t have "''Prediction'' \<in> set (union_columns frames)"
    by (auto simp: set_union_columns)
  then have col: "map_of (cols (pd_concat frames)) ''Prediction''
      = Some (concat (map (\<lambda>t. column_or_nan t ''Prediction'') frames))"
    by (simp add: pd_concat_def map_of_tabulate)
  have n: "nrows (pd_concat frames) = sum_list (map nrows frames)"
    by (simp add: pd_concat_def)
  show ?thesis
    using ne pos
    by (simp add: national_analytics_def col n Let_def count_fraud_concat comp_def)
qed

lemma value_counts_total:
  "sum_list (map snd (value_counts xs)) = length (filter (\<lambda>c. \<not> isnull c) xs)"
proof -
  define present where "present = filter (\<lambda>c. \<not> isnull c) xs"
  define keys where "keys = rev (remdups (rev present))"
  have d: "distinct keys" and s: "set keys = set present" by (simp_all add: keys_def)
  have "sum_list (map snd (value_counts xs))
          = sum_list (map snd (map (\<lambda>v. (v, count_list present v)) keys))"
    unfolding value_counts_def Let_def present_def [symmetric] keys_def [symmetric]
    by (rule sum_list_mset_cong) simp
  also have "\<dots> = sum_list (map (count_list present) keys)" by (simp add: comp_def)
  also have "\<dots> = sum (count_list present) (set keys)"
    using d by (rule sum_list_distinct_conv_sum_set)
  also have "\<dots> = length present" by (simp add: s sum_count_set)
  finally show ?thesis by (simp add: present_def)
qed

lemma set_value_counts:
  "set (value_counts xs) =
     (\<lambda>v. (v, count (mset xs) v)) ` {v \<in> set_mset (mset xs). \<not> isnull v}"
proof -
  have "count_list (filter (\<lambda>c. \<not> isnull c) xs) v = count_list xs v" if "\<not> isnull v" for v
    using that by (induction xs) auto
  then show ?thesis
    by (auto simp: value_counts_def Let_def image_iff count_mset)
qed

lemma batch_summary_prediction_frame:
  "prediction_frame t \<Longrightarrow>
     batch_summary t =
       Inr (int (nrows t), int (count_fraud (column_or_nan t ''Prediction'')),
            int (nrows t) - int (count_fraud (column_or_nan t ''Prediction'')))"
  by (simp add: batch_summary_def prediction_frame_column(1))

lemma batch_summaries:
  assumes "list_all prediction_frame frames" and "map batch_summary frames = map Inr summaries"
  shows "summaries = map (\<lambda>t. (int (nrows t), int (count_fraud (column_or_nan t ''Prediction'')),
            int (nrows t) - int (count_fraud (column_or_nan t ''Prediction'')))) frames"
  using assms
proof (induction frames arbitrary: summaries)
  case Nil
  then show ?case by simp
next
  case (Cons t frames)
  then obtain s summaries' where "summaries = s # summaries'" by (cases summaries) auto
  with Cons show ?case by (auto simp: batch_summary_prediction_frame)
qed

lemma int_sum_list: "int (sum_list (map f xs)) = sum_list (map (\<lambda>x. int (f x)) xs)"
  by (induction xs) simp_all

lemma sum_list_diff_int:
  "sum_list (map (\<lambda>x. f x - g x) xs) = sum_list (map f xs) - sum_list (map g xs)"
  for f g :: "'a \<Rightarrow> int"
  by (induction xs) simp_all

lemma stored_frame_summary:
  assumes "hospital_dashboard E F user_id timestamp now run tbl st = (st', AnalysisCompleted nt nf)"
  shows "\<exists>P. files st' (pred_path_of user_id timestamp) = Some P
             \<and> prediction_frame P \<and> batch_summary P = Inr (nt, nf, nt - nf)"
proof -
  from hospital_dashboard_completed [OF assms] obtain t' preds where
    len: "length preds = nrows tbl" and nt: "nt = int (nrows tbl)"
    and nf: "nf = int (count_fraud (map CStr preds))"
    and fs: "files st' = (files st)(data_path_of user_id timestamp \<mapsto> tbl,
               pred_path_of user_id timestamp \<mapsto> set_column ''Prediction'' (map CStr preds) tbl)"
    by blast
  let ?P = "set_column ''Prediction'' (map CStr preds) tbl"
  have "\<not> list_ex isnull (map CStr preds)" by (simp add: list_ex_iff isnull_def)
  with len have "prediction_frame ?P"
    by (simp add: prediction_frame_def getitem_set_column nrows_set_column)
  moreover have "batch_summary ?P = Inr (nt, nf, nt - nf)"
    by (simp add: batch_summary_def getitem_set_column nrows_set_column nt nf)
  moreover have "files st' (pred_path_of user_id timestamp) = Some ?P" by (simp add: fs)
  ultimately show ?thesis by blast
qed

lemma from_to_bytes_little: "from_bytes_little (to_bytes_little k n) = n mod 256 ^ k"
proof (induction k arbitrary: n)
  case 0
  then show ?case by simp
next
  case (Suc k)
  have "uint (word_of_int n :: 8 word) = n mod 256"
    by (simp add: uint_word_of_int take_bit_eq_mod)
  then show ?case
    using zmod_zmult2_eq [of "256 ^ k" n 256] by (simp add: Suc.IH)
qed

lemma int64_round_trip: "from_bytes_little (int64_bytes n) = n mod 2 ^ 64"
  by (simp add: int64_bytes_def from_to_bytes_little)

lemma find_snoc:
  "find P (xs @ [x]) = (case find P xs of Some y \<Rightarrow> Some y | None \<Rightarrow> if P x then Some x else None)"
  by (induction xs) auto









lemma reupload_is_refused:
  "snd (hospital_dashboard sample_env no_faults 7 ''20240110120000'' ''2024-01-10 12:00:00'' True
          sample_reupload empty_store)
     = ProcessingError (ArtifactError ''feature_names mismatch'')"
  by code_simp

lemma pd_concat_prediction:
  assumes pf: "list_all prediction_frame frames" and ne: "frames \<noteq> []"
  shows "map_of (cols (pd_concat frames)) ''Prediction''
           = Some (concat (map (\<lambda>t. column_or_nan t ''Prediction'') frames))"
proof -
  from ne obtain t where t: "t \<in> set frames" by (cases frames) auto
  with pf have "prediction_frame t" by (simp add: list_all_iff)
  then have "''Prediction'' \<in> set (column_names t)" by (rule prediction_frame_column)
  with t have "''Prediction'' \<in> set (union_columns frames)"
    by (auto simp: set_union_columns)
  then show ?thesis by (simp add: pd_concat_def map_of_tabulate)
qed

lemma national_analytics_shown:
  "national_analytics frames = NationalOverview T Fr NF bd \<Longrightarrow> 0 < sum_list (map nrows frames)"
  by (auto simp: national_analytics_def Let_def pd_concat_def split: if_splits option.splits)

lemma national_analytics_no_rows:
  assumes pf: "list_all prediction_frame frames" and z: "sum_list (map nrows frames) = 0"
  shows "national_analytics frames = (if frames = [] then NoDataFiles else NoDataAvailable)"
proof (cases "frames = []")
  case True
  then show ?thesis by (simp add: national_analytics_def)
next
  case False
  have n: "nrows (pd_concat frames) = 0" using z by (simp add: pd_concat_def)
  from False show ?thesis
    by (simp add: national_analytics_def pd_concat_prediction [OF pf False] n Let_def)
qed

section \<open>The claims\<close>

text \<open>
  C1. An upload that completes has stored, and committed, a summary row for its batch.
  The total is stored as the number of rows of the uploaded table; the fraud count and
  the non-fraud count are stored as the eight bytes of the number of rows of the stored
  predictions file whose \<^verbatim>\<open>Prediction\<close> is not \<^verbatim>\<open>No Fraud\<close>, and of the total minus
  that number. Read back (a frame has fewer than \<open>2 ^ 64\<close> rows), the three counts are
  these numbers, the results tab shows them, and fraud and non-fraud add up to the total.
  The sample table, labelled No Fraud, Billing Fraud, No Fraud, reads back as (3, 1, 2).
\<close>

theorem summary_counts_rows:
  assumes "hospital_dashboard E F user_id timestamp now run tbl st = (st', AnalysisCompleted nt nf)"
  shows "\<exists>P p row.
           files st' (pred_path_of user_id timestamp) = Some P
           \<and> getitem P ''Prediction'' = Inr p
           \<and> nrows P = nrows tbl \<and> length p = nrows tbl
           \<and> nt = int (nrows tbl)
           \<and> nf = int (card {i. i < nrows tbl \<and> p ! i \<noteq> CStr ''No Fraud''})
           \<and> row = \<lparr>pr_id = Suc (predictions_seq (conn st)),
                     dataset_id = Suc (datasets_seq (conn st)),
                     total_cases = DbInt nt, fraud_count = DbBlob (int64_bytes nf),
                     non_fraud_count = DbBlob (int64_bytes (nt - nf))\<rparr>
           \<and> predictions (conn st') = predictions (conn st) @ [row]
           \<and> durable st' = conn st'
           \<and> nf + (nt - nf) = nt \<and> 0 \<le> nf \<and> 0 \<le> nt - nf
           \<and> (nrows tbl < 2 ^ 64 \<longrightarrow>
                 to_int_if_bytes (total_cases row) = nt
               \<and> to_int_if_bytes (fraud_count row) = nf
               \<and> to_int_if_bytes (non_fraud_count row) = nt - nf
               \<and> to_int_if_bytes (fraud_count row) + to_int_if_bytes (non_fraud_count row)
                   = to_int_if_bytes (total_cases row))
           \<and> (nrows tbl < 2 ^ 64
                \<and> find (\<lambda>r. dataset_id r = Suc (datasets_seq (conn st))) (predictions (conn st))
                    = None \<longrightarrow>
                 dataset_summary st' (Suc (datasets_seq (conn st))) = Some (nt, nf, nt - nf))"
proof -
  from hospital_dashboard_completed [OF assms] obtain t' preds where
    len: "length preds = nrows tbl" and nt: "nt = int (nrows tbl)"
    and nf: "nf = int (count_fraud (map CStr preds))"
    and fs: "files st' = (files st)(data_path_of user_id timestamp \<mapsto> tbl,
               pred_path_of user_id timestamp \<mapsto> set_column ''Prediction'' (map CStr preds) tbl)"
    and ps: "predictions (conn st') = predictions (conn st) @
               [\<lparr>pr_id = Suc (predictions_seq (conn st)),
                 dataset_id = Suc (datasets_seq (conn st)),
                 total_cases = DbInt nt, fraud_count = DbBlob (int64_bytes nf),
                 non_fraud_count = DbBlob (int64_bytes (nt - nf))\<rparr>]"
    and du: "durable st' = conn st'"
    by blast
  let ?p = "map CStr preds"
  let ?P = "set_column ''Prediction'' ?p tbl"
  let ?row = "\<lparr>pr_id = Suc (predictions_seq (conn st)),
                 dataset_id = Suc (datasets_seq (conn st)),
                 total_cases = DbInt nt, fraud_count = DbBlob (int64_bytes nf),
                 non_fraud_count = DbBlob (int64_bytes (nt - nf))\<rparr>"
  have a: "files st' (pred_path_of user_id timestamp) = Some ?P" by (simp add: fs)
  have b: "getitem ?P ''Prediction'' = Inr ?p" by (simp add: getitem_set_column)
  have c: "count_fraud ?p = card {i. i < nrows tbl \<and> ?p ! i \<noteq> CStr ''No Fraud''}"
    using len by (simp add: count_fraud_def length_filter_conv_card)
  have d: "count_fraud ?p \<le> nrows tbl"
    using len length_filter_le [of "\<lambda>c. c \<noteq> CStr ''No Fraud''" ?p] by (simp add: count_fraud_def)
  have bounds: "0 \<le> nf" "nf \<le> nt" using d nt nf by simp_all
  have decoded: "to_int_if_bytes (fraud_count ?row) = nf
              \<and> to_int_if_bytes (non_fraud_count ?row) = nt - nf"
    if "nrows tbl < 2 ^ 64"
  proof -
    from that have "nt < 2 ^ 64" unfolding nt
      by (metis of_nat_less_iff of_nat_numeral of_nat_power)
    with bounds show ?thesis by (simp add: int64_round_trip)
  qed
  have summary: "dataset_summary st' (Suc (datasets_seq (conn st))) = Some (nt, nf, nt - nf)"
    if "nrows tbl < 2 ^ 64"
      and "find (\<lambda>r. dataset_id r = Suc (datasets_seq (conn st))) (predictions (conn st)) = None"
    using decoded [OF that(1)] that(2) by (simp add: dataset_summary_def ps find_snoc)
  from a b c d len nt nf ps du decoded summary show ?thesis
    by (intro exI [of _ ?P] exI [of _ ?p] exI [of _ ?row]) (simp add: nrows_set_column)
qed

theorem summary_counts_rows_witness:
  "snd sample_upload = AnalysisCompleted 3 1
   \<and> snd (make_predictions sample_env 0 [sample_table])
       = Inr [''No Fraud'', ''Billing Fraud'', ''No Fraud'']
   \<and> predictions (conn (fst sample_upload)) =
       [\<lparr>pr_id = 1, dataset_id = 1, total_cases = DbInt 3,
         fraud_count = DbBlob [1, 0, 0, 0, 0, 0, 0, 0],
         non_fraud_count = DbBlob [2, 0, 0, 0, 0, 0, 0, 0]\<rparr>]
   \<and> dataset_summary (fst sample_upload) 1 = Some (3, 1, 2)"
proof -
  have s: "snd sample_upload = AnalysisCompleted 3 1" by code_simp
  have m: "snd (make_predictions sample_env 0 [sample_table])
             = Inr [''No Fraud'', ''Billing Fraud'', ''No Fraud'']" by code_simp
  have b: "int64_bytes 1 = [1, 0, 0, 0, 0, 0, 0, 0]" "int64_bytes 2 = [2, 0, 0, 0, 0, 0, 0, 0]"
    by code_simp+
  have h: "hospital_dashboard sample_env no_faults 7 ''20240110120000'' ''2024-01-10 12:00:00''
             True sample_table empty_store = (fst sample_upload, AnalysisCompleted 3 1)"
    using s by (simp add: sample_upload_def [symmetric] prod_eq_iff)
  from summary_counts_rows [OF h] obtain row where
    r: "row = \<lparr>pr_id = Suc (predictions_seq (conn empty_store)),
                 dataset_id = Suc (datasets_seq (conn empty_store)),
                 total_cases = DbInt 3, fraud_count = DbBlob (int64_bytes 1),
                 non_fraud_count = DbBlob (int64_bytes (3 - 1))\<rparr>"
    and ps: "predictions (conn (fst sample_upload)) = predictions (conn empty_store) @ [row]"
    and ds: "nrows sample_table < 2 ^ 64
                \<and> find (\<lambda>r. dataset_id r = Suc (datasets_seq (conn empty_store)))
                      (predictions (conn empty_store)) = None \<longrightarrow>
             dataset_summary (fst sample_upload) (Suc (datasets_seq (conn empty_store)))
               = Some (3, 1, 3 - 1)"
    by blast
  from r ps have "predictions (conn (fst sample_upload)) =
       [\<lparr>pr_id = 1, dataset_id = 1, total_cases = DbInt 3,
         fraud_count = DbBlob [1, 0, 0, 0, 0, 0, 0, 0],
         non_fraud_count = DbBlob [2, 0, 0, 0, 0, 0, 0, 0]\<rparr>]"
    by (simp add: empty_store_def empty_db_def b)
  moreover from ds have "dataset_summary (fst sample_upload) 1 = Some (3, 1, 2)"
    by (simp add: empty_store_def empty_db_def sample_table_def)
  ultimately show ?thesis using s m by simp
qed

text \<open>
  C10. \<^verbatim>\<open>make_predictions\<close> and \<^verbatim>\<open>preprocess_data\<close> leave every object that existed
  before the call as it was, the caller's frame among them: all their writes go to the
  copy. The raw file of a completed upload holds the uploaded table itself.
\<close>

theorem make_predictions_keeps_input:
  "take (length h) (fst (make_predictions E r h)) = h
   \<and> take (length h) (fst (preprocess_data E r h)) = h
   \<and> (r < length h \<longrightarrow>
        fst (make_predictions E r h) ! r = h ! r \<and> fst (preprocess_data E r h) ! r = h ! r)
   \<and> (hospital_dashboard E F user_id timestamp now run tbl st = (st', AnalysisCompleted nt nf)
        \<longrightarrow> files st' (data_path_of user_id timestamp) = Some tbl)"
proof -
  obtain t' where p: "fst (preprocess_data E r h) = h @ [t']"
    using preprocess_data_heap by blast
  then have m: "fst (make_predictions E r h) = h @ [t']" by (simp add: make_predictions_heap)
  have "files st' (data_path_of user_id timestamp) = Some tbl"
    if "hospital_dashboard E F user_id timestamp now run tbl st = (st', AnalysisCompleted nt nf)"
    using hospital_dashboard_completed [OF that] by (auto simp: paths_differ)
  with p m show ?thesis by (simp add: nth_append)
qed

theorem make_predictions_keeps_input_witness:
  "fst (make_predictions sample_env 0 [sample_table]) ! 0 = sample_table
   \<and> getitem (fst (make_predictions sample_env 0 [sample_table]) ! 1) ''Gender''
       = Inr [CInt 1, CInt 0, CInt 1]
   \<and> snd sample_upload = AnalysisCompleted 3 1
   \<and> files (fst sample_upload) (data_path_of 7 ''20240110120000'') = Some sample_table"
proof -
  have s: "snd sample_upload = AnalysisCompleted 3 1" by code_simp
  have g: "getitem (fst (make_predictions sample_env 0 [sample_table]) ! 1) ''Gender''
             = Inr [CInt 1, CInt 0, CInt 1]" by code_simp
  have h: "hospital_dashboard sample_env no_faults 7 ''20240110120000'' ''2024-01-10 12:00:00''
             True sample_table empty_store = (fst sample_upload, AnalysisCompleted 3 1)"
    using s by (simp add: sample_upload_def [symmetric] prod_eq_iff)
  from make_predictions_keeps_input [where h = "[sample_table]" and E = sample_env and r = 0
      and F = no_faults and user_id = 7 and timestamp = "''20240110120000''"
      and now = "''2024-01-10 12:00:00''" and run = True and tbl = sample_table
      and st = empty_store and st' = "fst sample_upload" and nt = 3 and nf = 1] h
  have "fst (make_predictions sample_env 0 [sample_table]) ! 0 = sample_table
        \<and> files (fst sample_upload) (data_path_of 7 ''20240110120000'') = Some sample_table"
    by simp
  with s g show ?thesis by simp
qed

text \<open>
  C5. A table that lacks a required column is answered with the message that lists
  exactly the required columns it lacks, each by its name; the store is left as it was,
  and the answer does not depend on the artifacts, on the storage or on the button, so
  no later stage has run. Without \<^verbatim>\<open>Diagnosis\<close> the message names \<^verbatim>\<open>Diagnosis\<close>.
\<close>

theorem missing_columns_rejected:
  assumes "\<not> set required_columns \<subseteq> set (column_names tbl)"
  shows "hospital_dashboard E F user_id timestamp now run tbl st
           = (st, MissingColumns (''Missing columns: '' @ join '', '' (missing_columns tbl)))
         \<and> set (missing_columns tbl) = set required_columns - set (column_names tbl)
         \<and> (\<forall>c. c \<in> set required_columns \<and> c \<notin> set (column_names tbl)
                \<longrightarrow> (\<exists>pre post. ''Missing columns: '' @ join '', '' (missing_columns tbl)
                                    = pre @ c @ post))"
proof -
  have ne: "missing_columns tbl \<noteq> []"
    using assms by (auto simp: missing_columns_def filter_empty_conv)
  have run: "hospital_dashboard E F user_id timestamp now run tbl st
             = (st, MissingColumns (''Missing columns: '' @ join '', '' (missing_columns tbl)))"
    using ne by (simp add: hospital_dashboard_def)
  have s: "set (missing_columns tbl) = set required_columns - set (column_names tbl)"
    by (auto simp: missing_columns_def)
  have "\<exists>pre post. ''Missing columns: '' @ join '', '' (missing_columns tbl) = pre @ c @ post"
    if "c \<in> set required_columns" "c \<notin> set (column_names tbl)" for c
  proof -
    from that s have "c \<in> set (missing_columns tbl)" by simp
    then obtain pre post where "join '', '' (missing_columns tbl) = pre @ c @ post"
      using join_names by blast
    then have "''Missing columns: '' @ join '', '' (missing_columns tbl)
                 = (''Missing columns: '' @ pre) @ c @ post"
      by simp
    then show ?thesis by blast
  qed
  with run s show ?thesis by blast
qed

theorem missing_columns_rejected_witness:
  "\<not> set required_columns \<subseteq> set (column_names (drop_columns [''Diagnosis''] sample_table))
   \<and> hospital_dashboard sample_env no_faults 7 ''20240110120000'' ''2024-01-10 12:00:00'' True
       (drop_columns [''Diagnosis''] sample_table) empty_store
     = (empty_store, MissingColumns ''Missing columns: Diagnosis'')"
proof -
  have h: "\<not> set required_columns \<subseteq> set (column_names (drop_columns [''Diagnosis''] sample_table))"
    by (simp add: required_columns_def column_names_def drop_columns_def sample_table_def)
  have m: "missing_columns (drop_columns [''Diagnosis''] sample_table) = [''Diagnosis'']"
    by (simp add: missing_columns_def required_columns_def column_names_def drop_columns_def
        sample_table_def)
  from missing_columns_rejected [OF h, of sample_env no_faults 7 "''20240110120000''"
      "''2024-01-10 12:00:00''" True empty_store]
  have "hospital_dashboard sample_env no_faults 7 ''20240110120000'' ''2024-01-10 12:00:00'' True
          (drop_columns [''Diagnosis''] sample_table) empty_store
        = (empty_store, MissingColumns ''Missing columns: Diagnosis'')"
    by (simp add: m)
  with h show ?thesis by simp
qed

text \<open>
  C9. \<^verbatim>\<open>to_int_if_bytes\<close> gives, for every stored count, the integer it stands for: an
  integer as it is, a byte sequence as the number it writes in base 256 with the least
  significant byte first, NULL as 0. What the upload stores reads back as the number
  stored, whether it was bound as an \<^verbatim>\<open>int\<close> or as a \<^verbatim>\<open>numpy.int64\<close> (below
  \<open>2 ^ 64\<close>). The results tab passes each of the three counts of the summary row it
  reads through it, for every store and every dataset.
\<close>

theorem to_int_if_bytes_normalises:
  "to_int_if_bytes v = encoded_integer v
   \<and> to_int_if_bytes (DbInt n) = n
   \<and> to_int_if_bytes (DbBlob bs) = (\<Sum>i<length bs. uint (bs ! i) * 256 ^ i)
   \<and> to_int_if_bytes DbNull = 0
   \<and> to_int_if_bytes (bind_param (PyInt n)) = n
   \<and> to_int_if_bytes (bind_param (NumpyInt64 n)) = n mod 2 ^ 64
   \<and> to_int_if_bytes (DbBlob [3, 1, 0, 0, 0, 0, 0, 0]) = 259
   \<and> dataset_summary st d =
       map_option
         (\<lambda>r. (encoded_integer (total_cases r), encoded_integer (fraud_count r),
               encoded_integer (non_fraud_count r)))
         (find (\<lambda>r. dataset_id r = d) (predictions (conn st)))"
proof -
  have e: "to_int_if_bytes w = encoded_integer w" for w
    by (cases w) (simp_all add: encoded_integer_def from_bytes_little_sum)
  have "dataset_summary st d =
       map_option
         (\<lambda>r. (encoded_integer (total_cases r), encoded_integer (fraud_count r),
               encoded_integer (non_fraud_count r)))
         (find (\<lambda>r. dataset_id r = d) (predictions (conn st)))"
    by (simp add: dataset_summary_def e split: option.splits)
  moreover have "to_int_if_bytes v = encoded_integer v" by (rule e)
  ultimately show ?thesis
    by (simp add: int64_round_trip from_bytes_little_sum [symmetric])
qed



text \<open>
  C7 (amended). For a table with all required columns, with the button pressed: when
  \<^verbatim>\<open>make_predictions\<close> raises, or returns labels that do not fit the rows, the store is
  left as it was. Otherwise the raw file, the predictions file, the dataset row and the
  summary row are written in this order and committed last; a step that fails ends the
  upload with every earlier write left in place, the rows pending on the connection and
  not committed.
\<close>

theorem upload_writes_in_order:
  assumes "missing_columns tbl = []"
  shows
    "(\<forall>h e. make_predictions E 0 [tbl] = (h, Inl e) \<longrightarrow>
        hospital_dashboard E F user_id timestamp now True tbl st = (st, ProcessingError e))
   \<and> (\<forall>h preds. make_predictions E 0 [tbl] = (h, Inr preds) \<and> length preds \<noteq> nrows tbl \<longrightarrow>
        hospital_dashboard E F user_id timestamp now True tbl st = (st, ProcessingError LengthMismatch))
   \<and> (\<forall>h preds. make_predictions E 0 [tbl] = (h, Inr preds) \<and> length preds = nrows tbl \<longrightarrow>
        hospital_dashboard E F user_id timestamp now True tbl st =
          (let dpath = data_path_of user_id timestamp;
               ppath = pred_path_of user_id timestamp;
               nt = int (nrows tbl);
               nf = int (count_fraud (map CStr preds));
               dsid = Suc (datasets_seq (conn st));
               drow = \<lparr>ds_id = dsid, hospital_id = user_id, upload_date = now,
                       data_path = dpath, predictions_path = ppath\<rparr>;
               prow = \<lparr>pr_id = Suc (predictions_seq (conn st)), dataset_id = dsid,
                       total_cases = DbInt nt, fraud_count = DbBlob (int64_bytes nf),
                       non_fraud_count = DbBlob (int64_bytes (nt - nf))\<rparr>;
               st1 = st\<lparr>files := (files st)(dpath \<mapsto> tbl)\<rparr>;
               st2 = st\<lparr>files := (files st)(dpath \<mapsto> tbl,
                        ppath \<mapsto> set_column ''Prediction'' (map CStr preds) tbl)\<rparr>;
               st3 = st2\<lparr>conn := (conn st)\<lparr>datasets := datasets (conn st) @ [drow],
                                            datasets_seq := dsid\<rparr>\<rparr>;
               st4 = st2\<lparr>conn := (conn st)\<lparr>datasets := datasets (conn st) @ [drow],
                                            datasets_seq := dsid,
                                            predictions := predictions (conn st) @ [prow],
                                            predictions_seq := Suc (predictions_seq (conn st))\<rparr>\<rparr>
           in if F WriteDataCsv then (st, ProcessingError (StorageError WriteDataCsv))
              else if F WritePredictionsCsv
                then (st1, ProcessingError (StorageError WritePredictionsCsv))
              else if F InsertDataset then (st2, ProcessingError (StorageError InsertDataset))
              else if F InsertSummary then (st3, ProcessingError (StorageError InsertSummary))
              else if F Commit then (st4, ProcessingError (StorageError Commit))
              else (st4\<lparr>durable := conn st4\<rparr>, AnalysisCompleted nt nf)))"
proof (intro conjI allI impI)
  fix h e
  assume "make_predictions E 0 [tbl] = (h, Inl e)"
  then have "classify E 0 [tbl] = (h, Inl e)" by (rule classify_raise)
  then show "hospital_dashboard E F user_id timestamp now True tbl st = (st, ProcessingError e)"
    using assms by (simp add: hospital_dashboard_def)
next
  fix h preds
  assume a: "make_predictions E 0 [tbl] = (h, Inr preds) \<and> length preds \<noteq> nrows tbl"
  with make_predictions_run [of E 0 "[tbl]"] obtain t' where h: "h = [tbl, t']" by auto
  from classify_run [of E 0 "[tbl]" t' preds] a h
  have "classify E 0 [tbl] = ([tbl, t', tbl], Inl LengthMismatch)" by simp
  then show "hospital_dashboard E F user_id timestamp now True tbl st
             = (st, ProcessingError LengthMismatch)"
    using assms by (simp add: hospital_dashboard_def)
next
  fix h preds
  assume a: "make_predictions E 0 [tbl] = (h, Inr preds) \<and> length preds = nrows tbl"
  then show "hospital_dashboard E F user_id timestamp now True tbl st =
          (let dpath = data_path_of user_id timestamp;
               ppath = pred_path_of user_id timestamp;
               nt = int (nrows tbl);
               nf = int (count_fraud (map CStr preds));
               dsid = Suc (datasets_seq (conn st));
               drow = \<lparr>ds_id = dsid, hospital_id = user_id, upload_date = now,
                       data_path = dpath, predictions_path = ppath\<rparr>;
               prow = \<lparr>pr_id = Suc (predictions_seq (conn st)), dataset_id = dsid,
                       total_cases = DbInt nt, fraud_count = DbBlob (int64_bytes nf),
                       non_fraud_count = DbBlob (int64_bytes (nt - nf))\<rparr>;
               st1 = st\<lparr>files := (files st)(dpath \<mapsto> tbl)\<rparr>;
               st2 = st\<lparr>files := (files st)(dpath \<mapsto> tbl,
                        ppath \<mapsto> set_column ''Prediction'' (map CStr preds) tbl)\<rparr>;
               st3 = st2\<lparr>conn := (conn st)\<lparr>datasets := datasets (conn st) @ [drow],
                                            datasets_seq := dsid\<rparr>\<rparr>;
               st4 = st2\<lparr>conn := (conn st)\<lparr>datasets := datasets (conn st) @ [drow],
                                            datasets_seq := dsid,
                                            predictions := predictions (conn st) @ [prow],
                                            predictions_seq := Suc (predictions_seq (conn st))\<rparr>\<rparr>
           in if F WriteDataCsv then (st, ProcessingError (StorageError WriteDataCsv))
              else if F WritePredictionsCsv
                then (st1, ProcessingError (StorageError WritePredictionsCsv))
              else if F InsertDataset then (st2, ProcessingError (StorageError InsertDataset))
              else if F InsertSummary then (st3, ProcessingError (StorageError InsertSummary))
              else if F Commit then (st4, ProcessingError (StorageError Commit))
              else (st4\<lparr>durable := conn st4\<rparr>, AnalysisCompleted nt nf))"
    using assms by (simp add: hospital_dashboard_classified persist_run Let_def)
qed

theorem upload_writes_in_order_witness:
  "missing_columns sample_table = []
   \<and> snd (hospital_dashboard sample_env summary_fails 7 ''20240110120000''
            ''2024-01-10 12:00:00'' True sample_table empty_store)
       = ProcessingError (StorageError InsertSummary)
   \<and> files (fst (hospital_dashboard sample_env summary_fails 7 ''20240110120000''
            ''2024-01-10 12:00:00'' True sample_table empty_store))
          (data_path_of 7 ''20240110120000'') = Some sample_table
   \<and> predictions (conn (fst (hospital_dashboard sample_env summary_fails 7 ''20240110120000''
            ''2024-01-10 12:00:00'' True sample_table empty_store))) = []"
proof -
  have v: "missing_columns sample_table = []" by code_simp
  have m: "snd (make_predictions sample_env 0 [sample_table])
             = Inr [''No Fraud'', ''Billing Fraud'', ''No Fraud'']" by code_simp
  then have mp: "make_predictions sample_env 0 [sample_table]
             = (fst (make_predictions sample_env 0 [sample_table]),
                Inr [''No Fraud'', ''Billing Fraud'', ''No Fraud''])"
    by (simp add: prod_eq_iff)
  have n: "length [''No Fraud'', ''Billing Fraud'', ''No Fraud''] = nrows sample_table"
    by (simp add: sample_table_def)
  from upload_writes_in_order [OF v, THEN conjunct2, THEN conjunct2, rule_format, OF conjI,
      OF mp n, of summary_fails 7 "''20240110120000''" "''2024-01-10 12:00:00''" empty_store]
  have "hospital_dashboard sample_env summary_fails 7 ''20240110120000''
            ''2024-01-10 12:00:00'' True sample_table empty_store
        = (empty_store
             \<lparr>files := (files empty_store)
                 (data_path_of 7 ''20240110120000'' \<mapsto> sample_table,
                  pred_path_of 7 ''20240110120000'' \<mapsto>
                    set_column ''Prediction''
                      (map CStr [''No Fraud'', ''Billing Fraud'', ''No Fraud'']) sample_table),
               conn := (conn empty_store)
                 \<lparr>datasets := datasets (conn empty_store) @
                    [\<lparr>ds_id = Suc (datasets_seq (conn empty_store)), hospital_id = 7,
                      upload_date = ''2024-01-10 12:00:00'',
                      data_path = data_path_of 7 ''20240110120000'',
                      predictions_path = pred_path_of 7 ''20240110120000''\<rparr>],
                  datasets_seq := Suc (datasets_seq (conn empty_store))\<rparr>\<rparr>,
           ProcessingError (StorageError InsertSummary))"
    by (simp add: Let_def summary_fails_def)
  then show ?thesis using v by (simp add: paths_differ empty_store_def empty_db_def)
qed

text \<open>
  C7 as stated fails when the insert of the summary row fails: both files and the dataset
  row are in the store afterwards, and no summary row.
\<close>

theorem upload_leaves_partial_state:
  "snd (hospital_dashboard sample_env summary_fails 7 ''20240110120000''
            ''2024-01-10 12:00:00'' True sample_table empty_store)
       = ProcessingError (StorageError InsertSummary)
   \<and> files empty_store (data_path_of 7 ''20240110120000'') = None
   \<and> files (fst (hospital_dashboard sample_env summary_fails 7 ''20240110120000''
            ''2024-01-10 12:00:00'' True sample_table empty_store))
          (data_path_of 7 ''20240110120000'') = Some sample_table
   \<and> map_option nrows
        (files (fst (hospital_dashboard sample_env summary_fails 7 ''20240110120000''
            ''2024-01-10 12:00:00'' True sample_table empty_store))
          (pred_path_of 7 ''20240110120000'')) = Some 3
   \<and> map ds_id (datasets (conn (fst (hospital_dashboard sample_env summary_fails 7
            ''20240110120000'' ''2024-01-10 12:00:00'' True sample_table empty_store)))) = [1]
   \<and> predictions (conn (fst (hospital_dashboard sample_env summary_fails 7
            ''20240110120000'' ''2024-01-10 12:00:00'' True sample_table empty_store))) = []"
  by code_simp

text \<open>
  C2 (amended). On a frame that has both date columns, \<^verbatim>\<open>preprocess_data\<close> rejects the
  batch for its dates exactly when a date of either column does not parse. Otherwise the
  length of stay of every row is the floor of discharge minus admission in whole days, a
  negative number when the discharge is the earlier one, and the frame goes on to the
  encoding and the scaling with it.
\<close>

theorem stay_is_signed_day_difference:
  assumes "getitem (h ! r) ''Date Admitted'' = Inr a"
    and "getitem (h ! r) ''Date Discharged'' = Inr d"
  shows "preprocess_data E r h =
           (let A = map stamp (to_datetime E a);
                D = map stamp (to_datetime E d);
                t2 = set_column ''Date Discharged'' D (set_column ''Date Admitted'' A (h ! r))
            in if None \<in> set (to_datetime E a) \<or> None \<in> set (to_datetime E d)
               then (h @ [t2], Inl InvalidDateFormat)
               else py_bind (encode_and_scale E (length h)) (\<lambda>_. py_return (length h))
                      (h @ [set_column ''Length of Stay'' (timedelta_days D A) t2]))
         \<and> (\<forall>x y. days_between (CTime x) (CTime y) = CInt ((x - y) div ns_per_day)
                 \<and> (x < y \<longrightarrow> (x - y) div ns_per_day < 0))"
proof -
  have "(x - y) div ns_per_day < 0" if "x < y" for x y :: int
    using that by (simp add: ns_per_day_def div_neg_pos_less0)
  with preprocess_data_run [OF assms] show ?thesis by simp
qed

theorem stay_is_signed_day_difference_witness:
  "getitem ([sample_negative_stay] ! 0) ''Date Admitted''
     = Inr [CStr ''2024-01-01'', CStr ''2024-01-01'', CStr ''2024-01-05'']
   \<and> getitem ([sample_negative_stay] ! 0) ''Date Discharged''
     = Inr [CStr ''2024-01-05'', CStr ''2024-01-10'', CStr ''2024-01-01'']
   \<and> preprocess_data sample_env 0 [sample_negative_stay] =
       py_bind (encode_and_scale sample_env 1) (\<lambda>_. py_return 1)
         [sample_negative_stay,
          set_column ''Length of Stay'' [CInt 4, CInt 9, CInt (- 4)]
            (set_column ''Date Discharged''
               [CTime 1704412800000000000, CTime 1704844800000000000, CTime 1704067200000000000]
               (set_column ''Date Admitted''
                  [CTime 1704067200000000000, CTime 1704067200000000000, CTime 1704412800000000000]
                  sample_negative_stay))]
   \<and> snd (preprocess_data sample_env 0 [sample_negative_stay]) = Inr 1"
proof -
  have a: "getitem ([sample_negative_stay] ! 0) ''Date Admitted''
     = Inr [CStr ''2024-01-01'', CStr ''2024-01-01'', CStr ''2024-01-05'']"
    by (simp add: sample_negative_stay_def sample_table_def getitem_set_column)
       (simp add: getitem_def)
  have d: "getitem ([sample_negative_stay] ! 0) ''Date Discharged''
     = Inr [CStr ''2024-01-05'', CStr ''2024-01-10'', CStr ''2024-01-01'']"
    by (simp add: sample_negative_stay_def getitem_set_column)
  have s: "snd (preprocess_data sample_env 0 [sample_negative_stay]) = Inr 1" by code_simp
  from stay_is_signed_day_difference [OF a d, of sample_env, THEN conjunct1]
  have "preprocess_data sample_env 0 [sample_negative_stay] =
       py_bind (encode_and_scale sample_env 1) (\<lambda>_. py_return 1)
         [sample_negative_stay,
          set_column ''Length of Stay'' [CInt 4, CInt 9, CInt (- 4)]
            (set_column ''Date Discharged''
               [CTime 1704412800000000000, CTime 1704844800000000000, CTime 1704067200000000000]
               (set_column ''Date Admitted''
                  [CTime 1704067200000000000, CTime 1704067200000000000, CTime 1704412800000000000]
                  sample_negative_stay))]"
    by (simp add: sample_env_def sample_dates_def stamp_def timedelta_days_def ns_per_day_def
        Let_def)
  with a d s show ?thesis by simp
qed

text \<open>
  C2 as stated fails: the upload of a table whose third record is discharged before it
  is admitted is not rejected. The length of stay of that record is -4, it is scaled like
  the others, the batch is classified and its summary is committed.
\<close>

theorem negative_stay_is_classified:
  "getitem sample_negative_stay ''Date Admitted''
     = Inr [CStr ''2024-01-01'', CStr ''2024-01-01'', CStr ''2024-01-05'']
   \<and> getitem sample_negative_stay ''Date Discharged''
     = Inr [CStr ''2024-01-05'', CStr ''2024-01-10'', CStr ''2024-01-01'']
   \<and> getitem (fst (parse_dates sample_env 0 [sample_negative_stay]) ! 0) ''Length of Stay''
     = Inr [CInt 4, CInt 9, CInt (- 4)]
   \<and> getitem (fst (preprocess_data sample_env 0 [sample_negative_stay]) ! 1) ''Length of Stay''
     = Inr [CFloat (1 / 2), CFloat 3, CFloat (- 7 / 2)]
   \<and> snd (make_predictions sample_env 0 [sample_negative_stay])
     = Inr [''No Fraud'', ''Billing Fraud'', ''No Fraud'']
   \<and> snd (hospital_dashboard sample_env no_faults 7 ''20240110120000'' ''2024-01-10 12:00:00'' True
            sample_negative_stay empty_store) = AnalysisCompleted 3 1
   \<and> predictions (durable (fst (hospital_dashboard sample_env no_faults 7 ''20240110120000''
            ''2024-01-10 12:00:00'' True sample_negative_stay empty_store)))
     = [\<lparr>pr_id = 1, dataset_id = 1, total_cases = DbInt 3, fraud_count = DbBlob [1, 0, 0, 0, 0, 0, 0, 0],
         non_fraud_count = DbBlob [2, 0, 0, 0, 0, 0, 0, 0]\<rparr>]"
  by code_simp

text \<open>
  C4. Let the diagnosis encoder be the label encoder over a fixed vocabulary. For a table
  with all required columns whose dates all parse, a diagnosis outside the vocabulary
  ends the upload with the encoder's error: the error carries exactly the diagnoses of
  the table that the vocabulary lacks, the offending one among them; nothing is encoded
  for any row, nothing is classified and the store is left as it was.
\<close>

theorem unseen_diagnosis_rejected:
  assumes enc: "diagnosis_encoder_transform E = label_encoder_transform vocab"
    and cols: "missing_columns tbl = []"
    and a: "getitem tbl ''Date Admitted'' = Inr a" and pa: "None \<notin> set (to_datetime E a)"
    and d: "getitem tbl ''Date Discharged'' = Inr d" and pd: "None \<notin> set (to_datetime E d)"
    and dg: "getitem tbl ''Diagnosis'' = Inr dg" and x: "x \<in> set dg" "x \<notin> set vocab"
  shows "\<exists>unseen.
           hospital_dashboard E F user_id timestamp now True tbl st
             = (st, ProcessingError (UnseenLabels unseen))
         \<and> x \<in> set unseen \<and> set unseen = set dg - set vocab"
proof -
  define unseen where "unseen = remdups (filter (\<lambda>y. y \<notin> set vocab) dg)"
  define t3 where "t3 = set_column ''Length of Stay''
      (timedelta_days (map stamp (to_datetime E d)) (map stamp (to_datetime E a)))
      (set_column ''Date Discharged'' (map stamp (to_datetime E d))
         (set_column ''Date Admitted'' (map stamp (to_datetime E a)) tbl))"
  from required_present [OF cols, of "''Gender''"] obtain g where g: "getitem tbl ''Gender'' = Inr g"
    by (auto simp: required_columns_def)
  have ne: "unseen \<noteq> []" and xs: "x \<in> set unseen" and su: "set unseen = set dg - set vocab"
    using x by (auto simp: unseen_def filter_empty_conv)
  have lab: "label_encoder_transform vocab dg = Inl (UnseenLabels unseen)"
    using ne by (simp add: label_encoder_transform_def unseen_def)
  have pp: "preprocess_data E 0 [tbl] =
              py_bind (encode_and_scale E 1) (\<lambda>_. py_return 1) [tbl, t3]"
    using preprocess_data_run [of "[tbl]" 0 a d E] a d pa pd by (simp add: Let_def t3_def)
  have es: "snd (encode_and_scale E 1 [tbl, t3]) = Inl (UnseenLabels unseen)"
    using encode_and_scale_run [of E "[tbl]" t3] g dg enc lab
    by (simp add: Let_def t3_def getitem_set_column getitem_drop_columns)
  obtain h' where "preprocess_data E 0 [tbl] = (h', Inl (UnseenLabels unseen))"
    using pp es by (cases "encode_and_scale E 1 [tbl, t3]") (simp add: py_bind_def)
  then have "make_predictions E 0 [tbl] = (h', Inl (UnseenLabels unseen))"
    by (rule make_predictions_raise)
  then have "classify E 0 [tbl] = (h', Inl (UnseenLabels unseen))"
    by (rule classify_raise)
  then have "hospital_dashboard E F user_id timestamp now True tbl st
             = (st, ProcessingError (UnseenLabels unseen))"
    using cols by (simp add: hospital_dashboard_def)
  with xs su show ?thesis by blast
qed

theorem unseen_diagnosis_rejected_witness:
  "diagnosis_encoder_transform sample_env = label_encoder_transform [CStr ''Flu'', CStr ''Malaria'']
   \<and> missing_columns sample_unknown_diagnosis = []
   \<and> getitem sample_unknown_diagnosis ''Diagnosis'' = Inr [CStr ''Flu'', CStr ''Plague'', CStr ''Flu'']
   \<and> hospital_dashboard sample_env no_faults 7 ''20240110120000'' ''2024-01-10 12:00:00'' True
        sample_unknown_diagnosis empty_store
      = (empty_store, ProcessingError (UnseenLabels [CStr ''Plague'']))"
proof -
  have enc: "diagnosis_encoder_transform sample_env
               = label_encoder_transform [CStr ''Flu'', CStr ''Malaria'']"
    by (simp add: sample_env_def)
  have cols: "missing_columns sample_unknown_diagnosis = []" by code_simp
  have a: "getitem sample_unknown_diagnosis ''Date Admitted''
             = Inr [CStr ''2024-01-01'', CStr ''2024-01-01'', CStr ''2024-01-05'']" by code_simp
  have d: "getitem sample_unknown_diagnosis ''Date Discharged''
             = Inr [CStr ''2024-01-05'', CStr ''2024-01-10'', CStr ''2024-01-10'']" by code_simp
  have pa: "None \<notin> set (to_datetime sample_env
              [CStr ''2024-01-01'', CStr ''2024-01-01'', CStr ''2024-01-05''])"
    by (simp add: sample_env_def sample_dates_def)
  have pd: "None \<notin> set (to_datetime sample_env
              [CStr ''2024-01-05'', CStr ''2024-01-10'', CStr ''2024-01-10''])"
    by (simp add: sample_env_def sample_dates_def)
  have dg: "getitem sample_unknown_diagnosis ''Diagnosis''
              = Inr [CStr ''Flu'', CStr ''Plague'', CStr ''Flu'']" by code_simp
  have x: "CStr ''Plague'' \<in> set [CStr ''Flu'', CStr ''Plague'', CStr ''Flu'']"
    "CStr ''Plague'' \<notin> set [CStr ''Flu'', CStr ''Malaria'']" by simp_all
  have s: "snd (hospital_dashboard sample_env no_faults 7 ''20240110120000''
             ''2024-01-10 12:00:00'' True sample_unknown_diagnosis empty_store)
           = ProcessingError (UnseenLabels [CStr ''Plague''])" by code_simp
  from unseen_diagnosis_rejected [OF enc cols a pa d pd dg x, of no_faults 7
      "''20240110120000''" "''2024-01-10 12:00:00''" empty_store]
  obtain unseen where
    "hospital_dashboard sample_env no_faults 7 ''20240110120000'' ''2024-01-10 12:00:00'' True
          sample_unknown_diagnosis empty_store
        = (empty_store, ProcessingError (UnseenLabels unseen))"
    by blast
  then have "fst (hospital_dashboard sample_env no_faults 7 ''20240110120000''
          ''2024-01-10 12:00:00'' True sample_unknown_diagnosis empty_store) = empty_store"
    by simp
  with s have "hospital_dashboard sample_env no_faults 7 ''20240110120000''
          ''2024-01-10 12:00:00'' True sample_unknown_diagnosis empty_store
        = (empty_store, ProcessingError (UnseenLabels [CStr ''Plague'']))"
    by (simp add: prod_eq_iff)
  with enc cols dg show ?thesis by simp
qed

text \<open>
  C3 (amended). \<^verbatim>\<open>Male\<close> is encoded as 1 and \<^verbatim>\<open>Female\<close> as 0; any other gender is
  encoded as a missing value (NaN), not rejected. When \<^verbatim>\<open>preprocess_data\<close> succeeds, the
  gender feature of the frame it returns is this encoding of the uploaded column, row by
  row, and that frame is what the classifier is given. Whether \<^verbatim>\<open>preprocess_data\<close>
  succeeds, and the error it raises otherwise, does not depend on the gender values.
\<close>

theorem gender_is_mapped_not_checked:
  "gender_code (CStr ''Male'') = CInt 1 \<and> gender_code (CStr ''Female'') = CInt 0
   \<and> (c \<noteq> CStr ''Male'' \<and> c \<noteq> CStr ''Female'' \<longrightarrow> gender_code c = CNaN)
   \<and> (preprocess_data E r h = (h', Inr df) \<and> getitem (h ! r) ''Gender'' = Inr g \<longrightarrow>
        getitem (h' ! df) ''Gender'' = Inr (map gender_code g)
        \<and> make_predictions E r h =
            (h', case model_predict E (h' ! df) of
                   Inl e \<Rightarrow> Inl e
                 | Inr y_pred \<Rightarrow> fraud_encoder_inverse_transform E y_pred))
   \<and> (r < length h \<and> getitem (h ! r) ''Gender'' = Inr g \<longrightarrow>
        snd (preprocess_data E r (h[r := set_column ''Gender'' g' (h ! r)]))
          = snd (preprocess_data E r h))"
proof -
  have ind: "snd (preprocess_data E r (h[r := set_column ''Gender'' g' (h ! r)]))
          = snd (preprocess_data E r h)"
    if "r < length h" and "getitem (h ! r) ''Gender'' = Inr g"
    using that by (intro gender_values_do_not_decide [of "h ! r" g]) simp_all
  have "getitem (h' ! df) ''Gender'' = Inr (map gender_code g)
        \<and> make_predictions E r h =
            (h', case model_predict E (h' ! df) of
                   Inl e \<Rightarrow> Inl e
                 | Inr y_pred \<Rightarrow> fraud_encoder_inverse_transform E y_pred)"
    if ok: "preprocess_data E r h = (h', Inr df)" and g: "getitem (h ! r) ''Gender'' = Inr g"
  proof -
    from preprocess_data_ok [OF ok] g obtain t1 codes m' where
      df: "df = length h"
      and h': "h' = h @ [set_columns num_cols m'
                          (set_column ''Diagnosis'' codes
                             (set_column ''Gender'' (map gender_code g) t1))]"
      by auto
    have "getitem (h' ! df) ''Gender'' = Inr (map gender_code g)"
      by (simp add: df h' getitem_set_columns getitem_set_column num_cols_def)
    moreover have "make_predictions E r h =
            (h', case model_predict E (h' ! df) of
                   Inl e \<Rightarrow> Inl e
                 | Inr y_pred \<Rightarrow> fraud_encoder_inverse_transform E y_pred)"
      using ok by (simp add: make_predictions_def py_bind_def py_lift_def split: sum.splits)
    ultimately show ?thesis by simp
  qed
  with ind show ?thesis by (simp add: gender_code_def)
qed

theorem gender_is_mapped_not_checked_witness:
  "snd (preprocess_data sample_env 0 [sample_other_gender]) = Inr 1
   \<and> getitem ([sample_other_gender] ! 0) ''Gender''
       = Inr [CStr ''Male'', CStr ''Other'', CStr ''Female'']
   \<and> getitem (fst (preprocess_data sample_env 0 [sample_other_gender]) ! 1) ''Gender''
       = Inr [CInt 1, CNaN, CInt 0]"
proof -
  have s: "snd (preprocess_data sample_env 0 [sample_other_gender]) = Inr 1" by code_simp
  then have ok: "preprocess_data sample_env 0 [sample_other_gender]
                  = (fst (preprocess_data sample_env 0 [sample_other_gender]), Inr 1)"
    by (simp add: prod_eq_iff)
  have g: "getitem ([sample_other_gender] ! 0) ''Gender''
             = Inr [CStr ''Male'', CStr ''Other'', CStr ''Female'']"
    by (simp add: sample_other_gender_def getitem_set_column)
  from gender_is_mapped_not_checked [where E = sample_env and r = 0
      and h = "[sample_other_gender]"
      and h' = "fst (preprocess_data sample_env 0 [sample_other_gender])" and df = 1
      and g = "[CStr ''Male'', CStr ''Other'', CStr ''Female'']"] ok g
  have "getitem (fst (preprocess_data sample_env 0 [sample_other_gender]) ! 1) ''Gender''
       = Inr (map gender_code [CStr ''Male'', CStr ''Other'', CStr ''Female''])"
    by blast
  then have "getitem (fst (preprocess_data sample_env 0 [sample_other_gender]) ! 1) ''Gender''
       = Inr [CInt 1, CNaN, CInt 0]"
    by (simp add: gender_code_def)
  with s g show ?thesis by simp
qed

text \<open>
  C3 as stated fails: the upload of a table with the gender \<^verbatim>\<open>Other\<close> raises no error.
  The classifier is given a missing gender for that row, the batch is classified and its
  summary is committed.
\<close>

theorem other_gender_is_classified:
  "getitem sample_other_gender ''Gender'' = Inr [CStr ''Male'', CStr ''Other'', CStr ''Female'']
   \<and> getitem (fst (make_predictions sample_env 0 [sample_other_gender]) ! 1) ''Gender''
       = Inr [CInt 1, CNaN, CInt 0]
   \<and> snd (make_predictions sample_env 0 [sample_other_gender])
       = Inr [''No Fraud'', ''Billing Fraud'', ''No Fraud'']
   \<and> snd (hospital_dashboard sample_env no_faults 7 ''20240110120000'' ''2024-01-10 12:00:00'' True
            sample_other_gender empty_store) = AnalysisCompleted 3 1
   \<and> predictions (durable (fst (hospital_dashboard sample_env no_faults 7 ''20240110120000''
            ''2024-01-10 12:00:00'' True sample_other_gender empty_store)))
     = [\<lparr>pr_id = 1, dataset_id = 1, total_cases = DbInt 3, fraud_count = DbBlob [1, 0, 0, 0, 0, 0, 0, 0],
         non_fraud_count = DbBlob [2, 0, 0, 0, 0, 0, 0, 0]\<rparr>]"
  by code_simp

text \<open>
  C6. Take any batches, each a predictions frame with its summary. Whenever the national
  view shows numbers, they are the componentwise sum of the summaries, the counts of the
  breakdown add up to the total, and the same batches in any other order give the same
  three numbers and a breakdown with the same pairs of label and count. It shows numbers
  exactly when the batches hold a row; with none the summaries add up to (0, 0, 0) and
  the view shows a notice in their place. Summaries (10, 2, 8) and (5, 1, 4) give
  (15, 3, 12), with breakdown counts that add up to 15.
\<close>

theorem national_totals_add_up:
  assumes pf: "list_all prediction_frame frames"
    and sums: "map batch_summary frames = map Inr summaries"
  shows "(\<forall>T Fr NF breakdown.
            national_analytics frames = NationalOverview T Fr NF breakdown \<longrightarrow>
              T = sum_list (map fst summaries)
            \<and> Fr = sum_list (map (fst \<circ> snd) summaries)
            \<and> NF = sum_list (map (snd \<circ> snd) summaries)
            \<and> int (sum_list (map snd breakdown)) = T
            \<and> (\<forall>frames'. mset frames' = mset frames \<longrightarrow>
                  (\<exists>breakdown'.
                     national_analytics frames' = NationalOverview T Fr NF breakdown'
                   \<and> set breakdown' = set breakdown)))
         \<and> (0 < sum_list (map fst summaries) \<longrightarrow>
               (\<exists>breakdown.
                  national_analytics frames =
                    NationalOverview (sum_list (map fst summaries))
                      (sum_list (map (fst \<circ> snd) summaries))
                      (sum_list (map (snd \<circ> snd) summaries)) breakdown))
         \<and> (sum_list (map fst summaries) = 0 \<longrightarrow>
               national_analytics frames = (if frames = [] then NoDataFiles else NoDataAvailable)
             \<and> sum_list (map (fst \<circ> snd) summaries) = 0
             \<and> sum_list (map (snd \<circ> snd) summaries) = 0)"
proof -
  let ?P = "\<lambda>t. column_or_nan t ''Prediction''"
  let ?bd = "\<lambda>fs. value_counts (concat (map ?P fs))"
  note S = batch_summaries [OF pf sums]
  have T: "sum_list (map fst summaries) = int (sum_list (map nrows frames))"
    by (simp add: S comp_def int_sum_list)
  have Fr: "sum_list (map (fst \<circ> snd) summaries)
              = int (sum_list (map (\<lambda>t. count_fraud (?P t)) frames))"
    by (simp add: S comp_def int_sum_list)
  have NF: "sum_list (map (snd \<circ> snd) summaries)
              = int (sum_list (map nrows frames))
                - int (sum_list (map (\<lambda>t. count_fraud (?P t)) frames))"
    by (simp add: S comp_def int_sum_list sum_list_diff_int)
  have run: "national_analytics frames =
               NationalOverview (sum_list (map fst summaries))
                 (sum_list (map (fst \<circ> snd) summaries))
                 (sum_list (map (snd \<circ> snd) summaries)) (?bd frames)"
    if pos: "0 < sum_list (map nrows frames)"
    by (simp add: national_analytics_run [OF pf pos] T Fr NF)
  have nonull: "filter (\<lambda>c. \<not> isnull c) (?P t) = ?P t" if "t \<in> set frames" for t
  proof -
    from pf that have "prediction_frame t" by (simp add: list_all_iff)
    then have "\<not> list_ex isnull (?P t)" by (rule prediction_frame_column)
    then show ?thesis by (simp add: list_ex_iff filter_id_conv)
  qed
  have len: "length (?P t) = nrows t" if "t \<in> set frames" for t
  proof -
    from pf that have "prediction_frame t" by (simp add: list_all_iff)
    then show ?thesis by (rule prediction_frame_column)
  qed
  have "sum_list (map snd (?bd frames))
          = length (concat (map (\<lambda>t. filter (\<lambda>c. \<not> isnull c) (?P t)) frames))"
    by (simp add: value_counts_total filter_concat comp_def)
  also have "\<dots> = sum_list (map nrows frames)"
    using nonull len by (simp add: length_concat comp_def cong: map_cong)
  finally have total: "int (sum_list (map snd (?bd frames))) = sum_list (map fst summaries)"
    by (simp add: T)
  have perm: "\<exists>breakdown'.
                  national_analytics frames' =
                    NationalOverview (sum_list (map fst summaries))
                      (sum_list (map (fst \<circ> snd) summaries))
                      (sum_list (map (snd \<circ> snd) summaries)) breakdown'
                \<and> set breakdown' = set (?bd frames)"
    if m: "mset frames' = mset frames" and pos: "0 < sum_list (map nrows frames)" for frames'
  proof -
    from m have se: "set frames' = set frames" by (rule mset_eq_setD)
    with pf have pf': "list_all prediction_frame frames'" by (simp add: list_all_iff)
    have n: "sum_list (map nrows frames') = sum_list (map nrows frames)"
      using m by (rule sum_list_mset_cong)
    have f: "sum_list (map (\<lambda>t. count_fraud (?P t)) frames')
               = sum_list (map (\<lambda>t. count_fraud (?P t)) frames)"
      using m by (rule sum_list_mset_cong)
    have c: "mset (concat (map ?P frames')) = mset (concat (map ?P frames))"
      using sum_list_mset_cong [OF m, of "\<lambda>t. mset (?P t)"]
      by (simp add: mset_concat comp_def)
    from pos n have pos'': "0 < sum_list (map nrows frames')" by simp
    have "national_analytics frames' =
            NationalOverview (sum_list (map fst summaries))
              (sum_list (map (fst \<circ> snd) summaries))
              (sum_list (map (snd \<circ> snd) summaries)) (?bd frames')"
      by (simp add: national_analytics_run [OF pf' pos''] T Fr NF n f)
    moreover have "set (?bd frames') = set (?bd frames)"
      by (simp only: set_value_counts c)
    ultimately show ?thesis by blast
  qed
  have shown: "T' = sum_list (map fst summaries)
            \<and> Fr' = sum_list (map (fst \<circ> snd) summaries)
            \<and> NF' = sum_list (map (snd \<circ> snd) summaries)
            \<and> int (sum_list (map snd bd)) = T'
            \<and> (\<forall>frames'. mset frames' = mset frames \<longrightarrow>
                  (\<exists>breakdown'.
                     national_analytics frames' = NationalOverview T' Fr' NF' breakdown'
                   \<and> set breakdown' = set bd))"
    if v: "national_analytics frames = NationalOverview T' Fr' NF' bd" for T' Fr' NF' bd
  proof -
    from v have pos: "0 < sum_list (map nrows frames)" by (rule national_analytics_shown)
    from run [OF pos] v have eq: "T' = sum_list (map fst summaries)"
      "Fr' = sum_list (map (fst \<circ> snd) summaries)"
      "NF' = sum_list (map (snd \<circ> snd) summaries)" "bd = ?bd frames"
      by simp_all
    with total perm pos show ?thesis by simp
  qed
  have zero: "national_analytics frames = (if frames = [] then NoDataFiles else NoDataAvailable)
             \<and> sum_list (map (fst \<circ> snd) summaries) = 0
             \<and> sum_list (map (snd \<circ> snd) summaries) = 0"
    if z: "sum_list (map fst summaries) = 0"
  proof -
    from z T have z': "sum_list (map nrows frames) = 0" by simp
    have "count_fraud (?P t) = 0" if "t \<in> set frames" for t
    proof -
      from z' that have "nrows t = 0" by (simp add: sum_list_eq_0_iff)
      with len [OF that] show ?thesis by (simp add: count_fraud_def)
    qed
    then have cf: "sum_list (map (\<lambda>t. count_fraud (?P t)) frames) = 0"
      by (simp add: sum_list_eq_0_iff)
    have "sum_list (map (fst \<circ> snd) summaries) = 0" unfolding Fr cf by simp
    moreover have "sum_list (map (snd \<circ> snd) summaries) = 0" unfolding NF cf z' by simp
    ultimately show ?thesis using national_analytics_no_rows [OF pf z'] by blast
  qed
  from shown run zero T show ?thesis by (intro conjI allI impI) (auto simp: T)
qed

theorem national_totals_add_up_witness:
  "list_all prediction_frame [sample_batch_a, sample_batch_b]
   \<and> map batch_summary [sample_batch_a, sample_batch_b] = map Inr [(10, 2, 8), (5, 1, 4)]
   \<and> national_analytics [sample_batch_a, sample_batch_b] =
       NationalOverview 15 3 12
         [(CStr ''No Fraud'', 12), (CStr ''Billing Fraud'', 2), (CStr ''Phantom Billing'', 1)]
   \<and> sum_list (map snd
         [(CStr ''No Fraud'', 12 :: nat), (CStr ''Billing Fraud'', 2), (CStr ''Phantom Billing'', 1)])
       = 15
   \<and> (\<exists>breakdown'.
         national_analytics [sample_batch_b, sample_batch_a] = NationalOverview 15 3 12 breakdown'
       \<and> set breakdown' =
           set [(CStr ''No Fraud'', 12), (CStr ''Billing Fraud'', 2), (CStr ''Phantom Billing'', 1)])"
proof -
  have pf: "list_all prediction_frame [sample_batch_a, sample_batch_b]" by code_simp
  have sums: "map batch_summary [sample_batch_a, sample_batch_b] = map Inr [(10, 2, 8), (5, 1, 4)]"
    by code_simp
  have run: "national_analytics [sample_batch_a, sample_batch_b] =
       NationalOverview 15 3 12
         [(CStr ''No Fraud'', 12), (CStr ''Billing Fraud'', 2), (CStr ''Phantom Billing'', 1)]"
    by code_simp
  have m: "mset [sample_batch_b, sample_batch_a] = mset [sample_batch_a, sample_batch_b]"
    by (simp add: add.commute)
  from national_totals_add_up [OF pf sums, THEN conjunct1, rule_format, OF run]
  have "\<forall>frames'. mset frames' = mset [sample_batch_a, sample_batch_b] \<longrightarrow>
          (\<exists>breakdown'.
             national_analytics frames' = NationalOverview 15 3 12 breakdown'
           \<and> set breakdown' =
               set [(CStr ''No Fraud'', 12), (CStr ''Billing Fraud'', 2),
                    (CStr ''Phantom Billing'', 1)])"
    by blast
  with m have "\<exists>breakdown'.
         national_analytics [sample_batch_b, sample_batch_a] = NationalOverview 15 3 12 breakdown'
       \<and> set breakdown' =
           set [(CStr ''No Fraud'', 12), (CStr ''Billing Fraud'', 2), (CStr ''Phantom Billing'', 1)]"
    by blast
  with pf sums run show ?thesis by simp
qed

end
